theory Spec2Isabelle
  imports Complex_Main "HOL-Library.Multiset" "HOL-Library.Product_Lexorder"
    "HOL-Library.Log_Nat"
begin

section \<open>Data model\<close>

text \<open>
  A JavaScript \<open>Date\<close> is represented by its time value: the number of milliseconds
  since 1970-01-01T00:00:00Z. Only valid dates are modelled (no \<open>NaN\<close> time value);
  \<open>validDate\<close> is the range of time values that a \<open>Date\<close> can hold.
  The time zone of the host is a parameter of every function that reads or writes local
  time (\<open>getDate\<close>, \<open>getDay\<close>, \<open>getFullYear\<close>, \<open>getMonth\<close>, \<open>setDate\<close>).
  JavaScript numbers are IEEE 754 double-precision numbers. The activity arcs are
  computed as the engine computes them, every arithmetic operation rounded to the nearest
  double. The projection \<open>dateToAngle\<close> on its own, the target rotation and the ring
  backgrounds are stated in exact real arithmetic.
\<close>

type_synonym Date = int

definition msPerDay :: int where
  "msPerDay = 1000 * 60 * 60 * 24"

definition validDate :: "Date \<Rightarrow> bool" where
  "validDate t \<longleftrightarrow> \<bar>t\<bar> \<le> 8640000000000000"

section \<open>The Date library\<close>

text \<open>
  The built-in \<open>Date\<close> operations used by the component, following the
  definitions of the ECMAScript specification (Time Values and Time Range, Day Number
  and Time within Day, Year Number, Month Number, Date Number, Week Day, LocalTime, UTC,
  MakeDay, MakeDate, TimeClip, \<open>Date.UTC\<close>).
\<close>

definition Day :: "int \<Rightarrow> int" where
  "Day t = t div msPerDay"

definition TimeWithinDay :: "int \<Rightarrow> int" where
  "TimeWithinDay t = t mod msPerDay"

definition DaysInYear :: "int \<Rightarrow> int" where
  "DaysInYear y =
     (if y mod 4 \<noteq> 0 then 365
      else if y mod 100 \<noteq> 0 then 366
      else if y mod 400 \<noteq> 0 then 365
      else 366)"

definition DayFromYear :: "int \<Rightarrow> int" where
  "DayFromYear y =
     365 * (y - 1970) + (y - 1969) div 4 - (y - 1901) div 100 + (y - 1601) div 400"

lemma div_succ:
  fixes x k :: int
  assumes k: "0 < k"
  shows "(x + 1) div k = x div k + (if (x + 1) mod k = 0 then 1 else 0)"
proof -
  define q where "q = x div k"
  define r where "r = x mod k"
  have x: "x = k * q + r" by (simp add: q_def r_def)
  have r: "0 \<le> r" "r < k" using k by (simp_all add: r_def)
  show ?thesis
  proof (cases "r + 1 = k")
    case True
    then have "x + 1 = k * (q + 1)" using x by (simp add: algebra_simps)
    then show ?thesis using k by (simp add: q_def)
  next
    case False
    then have r1: "0 \<le> r + 1" "r + 1 < k" using r by auto
    have e: "x + 1 = (r + 1) + k * q" using x by simp
    have "(x + 1) div k = q + (r + 1) div k"
      unfolding e using k by (subst div_mult_self2) auto
    moreover have "(x + 1) mod k = r + 1"
      unfolding e using r1 by (simp add: mod_pos_pos_trivial)
    ultimately show ?thesis using r1 r by (simp add: q_def div_pos_pos_trivial)
  qed
qed

lemma mod_shift: "(y - k * c) mod k = y mod k" for y k c :: int
  using mod_mult_self2 [of y k "- c"] by simp

lemma div4_step:
  "(y - 1968) div 4 = (y - 1969) div 4 + (if y mod 4 = 0 then 1 else 0)" for y :: int
  using div_succ [of 4 "y - 1969"] mod_shift [of y 4 492] by simp

lemma div100_step:
  "(y - 1900) div 100 = (y - 1901) div 100 + (if y mod 100 = 0 then 1 else 0)" for y :: int
  using div_succ [of 100 "y - 1901"] mod_shift [of y 100 19] by simp

lemma div400_step:
  "(y - 1600) div 400 = (y - 1601) div 400 + (if y mod 400 = 0 then 1 else 0)" for y :: int
  using div_succ [of 400 "y - 1601"] mod_shift [of y 400 4] by simp

lemma mod_4_100: "y mod 100 = 0 \<Longrightarrow> y mod 4 = 0" for y :: int
  using mod_mod_cancel [of 4 100 y] by simp

lemma mod_100_400: "y mod 400 = 0 \<Longrightarrow> y mod 100 = 0" for y :: int
  using mod_mod_cancel [of 100 400 y] by simp

lemma DayFromYear_Suc: "DayFromYear (y + 1) = DayFromYear y + DaysInYear y"
  using mod_4_100 [of y] mod_100_400 [of y]
  by (simp add: DayFromYear_def DaysInYear_def div4_step div100_step div400_step)

lemma DaysInYear_cases: "DaysInYear y = 365 \<or> DaysInYear y = 366"
  by (simp add: DaysInYear_def)

lemma DayFromYear_less_Suc: "DayFromYear y < DayFromYear (y + 1)"
  using DaysInYear_cases [of y] by (auto simp: DayFromYear_Suc)

text \<open>
  \<open>YearFromTime(t)\<close> is the largest \<open>y\<close> with \<open>TimeFromYear(y) \<le> t\<close>. It is
  computed by a search upwards from a year that is not after the one sought;
  \<open>YearFromDay_bounds\<close> below shows that the result is the year of the specification.
\<close>

function yearUp :: "int \<Rightarrow> int \<Rightarrow> int" where
  "yearUp y d = (if DayFromYear (y + 1) \<le> d then yearUp (y + 1) d else y)"
  by pat_completeness auto
termination
proof (relation "measure (\<lambda>(y, d). nat (d - DayFromYear (y + 1) + 1))")
  show "wf (measure (\<lambda>(y, d). nat (d - DayFromYear (y + 1) + 1)))" by simp
next
  fix y d :: int
  assume "DayFromYear (y + 1) \<le> d"
  with DayFromYear_less_Suc [of "y + 1"]
  show "((y + 1, d), (y, d)) \<in> measure (\<lambda>(y, d). nat (d - DayFromYear (y + 1) + 1))"
    by simp
qed

declare yearUp.simps [simp del]

definition YearFromDay :: "int \<Rightarrow> int" where
  "YearFromDay d = yearUp (1970 + (if 0 \<le> d then d div 366 else d div 365)) d"

definition YearFromTime :: "int \<Rightarrow> int" where
  "YearFromTime t = YearFromDay (Day t)"

definition InLeapYear :: "int \<Rightarrow> int" where
  "InLeapYear t = (if DaysInYear (YearFromTime t) = 365 then 0 else 1)"

definition DayWithinYear :: "int \<Rightarrow> int" where
  "DayWithinYear t = Day t - DayFromYear (YearFromTime t)"

text \<open>Month and date number of the day \<open>d\<close> within a year with leap flag \<open>l\<close>.\<close>

definition MonthOfDay :: "int \<Rightarrow> int \<Rightarrow> int" where
  "MonthOfDay d l =
     (if d < 31 then 0
      else if d < 59 + l then 1
      else if d < 90 + l then 2
      else if d < 120 + l then 3
      else if d < 151 + l then 4
      else if d < 181 + l then 5
      else if d < 212 + l then 6
      else if d < 243 + l then 7
      else if d < 273 + l then 8
      else if d < 304 + l then 9
      else if d < 334 + l then 10
      else 11)"

definition DateOfDay :: "int \<Rightarrow> int \<Rightarrow> int" where
  "DateOfDay d l =
     (let m = MonthOfDay d l
      in if m = 0 then d + 1
         else if m = 1 then d - 30
         else if m = 2 then d - 58 - l
         else if m = 3 then d - 89 - l
         else if m = 4 then d - 119 - l
         else if m = 5 then d - 150 - l
         else if m = 6 then d - 180 - l
         else if m = 7 then d - 211 - l
         else if m = 8 then d - 242 - l
         else if m = 9 then d - 272 - l
         else if m = 10 then d - 303 - l
         else d - 333 - l)"

definition MonthFromTime :: "int \<Rightarrow> int" where
  "MonthFromTime t = MonthOfDay (DayWithinYear t) (InLeapYear t)"

definition DateFromTime :: "int \<Rightarrow> int" where
  "DateFromTime t = DateOfDay (DayWithinYear t) (InLeapYear t)"

definition WeekDay :: "int \<Rightarrow> int" where
  "WeekDay t = (Day t + 4) mod 7"

definition ToIntegerOrInfinity :: "real \<Rightarrow> int" where
  "ToIntegerOrInfinity x = (if 0 \<le> x then \<lfloor>x\<rfloor> else \<lceil>x\<rceil>)"

text \<open>Number of days of the year before month \<open>mn\<close> (0 to 11), with leap flag \<open>l\<close>.\<close>

definition DaysBeforeMonth :: "int \<Rightarrow> int \<Rightarrow> int" where
  "DaysBeforeMonth mn l =
     (if mn = 0 then 0
      else if mn = 1 then 31
      else if mn = 2 then 59 + l
      else if mn = 3 then 90 + l
      else if mn = 4 then 120 + l
      else if mn = 5 then 151 + l
      else if mn = 6 then 181 + l
      else if mn = 7 then 212 + l
      else if mn = 8 then 243 + l
      else if mn = 9 then 273 + l
      else if mn = 10 then 304 + l
      else 334 + l)"

text \<open>
  \<open>MakeDay\<close> asks for a time value \<open>t\<close> whose year is \<open>ym\<close>, whose month is \<open>mn\<close>
  and whose date is 1, and returns \<open>Day(t) + dt - 1\<close>; the day number of that \<open>t\<close> is
  \<open>DayOfMonthStart ym mn\<close>.
\<close>

definition DayOfMonthStart :: "int \<Rightarrow> int \<Rightarrow> int" where
  "DayOfMonthStart ym mn =
     DayFromYear ym + DaysBeforeMonth mn (if DaysInYear ym = 365 then 0 else 1)"

definition MakeDay :: "int \<Rightarrow> int \<Rightarrow> real \<Rightarrow> int" where
  "MakeDay year month date =
     (let dt = ToIntegerOrInfinity date;
          ym = year + month div 12;
          mn = month mod 12
      in DayOfMonthStart ym mn + dt - 1)"

definition MakeDate :: "int \<Rightarrow> int \<Rightarrow> int" where
  "MakeDate day time = day * msPerDay + time"

text \<open>
  \<open>TimeClip\<close> gives \<open>NaN\<close>, here \<open>None\<close>, for a time value outside the range of
  \<open>Date\<close>.
\<close>

definition TimeClip :: "int \<Rightarrow> Date option" where
  "TimeClip time = (if \<bar>time\<bar> > 8640000000000000 then None else Some time)"

text \<open>
  The time zone of the host. \<open>LocalTZA_UTC tz t\<close> is the offset of local time from UTC,
  in milliseconds, in effect at the instant \<open>t\<close> (the specification's
  \<open>LocalTZA(t, true)\<close>); \<open>LocalTZA_local tz t\<close> is the offset by which the
  local time value \<open>t\<close> is read (\<open>LocalTZA(t, false)\<close>). Nothing is assumed
  about the two functions.
\<close>

record TimeZone =
  LocalTZA_UTC :: "int \<Rightarrow> int"
  LocalTZA_local :: "int \<Rightarrow> int"

definition LocalTime :: "TimeZone \<Rightarrow> int \<Rightarrow> int" where
  "LocalTime tz t = t + LocalTZA_UTC tz t"

definition UTC :: "TimeZone \<Rightarrow> int \<Rightarrow> int" where
  "UTC tz t = t - LocalTZA_local tz t"

text \<open>\<open>Date.UTC\<close> and the \<open>Date\<close> constructor map the years 0 to 99 to 1900 to 1999.\<close>

definition MakeFullYear :: "int \<Rightarrow> int" where
  "MakeFullYear year = (if 0 \<le> year \<and> year \<le> 99 then 1900 + year else year)"

definition Date_UTC :: "int \<Rightarrow> int \<Rightarrow> int \<Rightarrow> Date option" where
  "Date_UTC year month date =
     TimeClip (MakeDate (MakeDay (MakeFullYear year) month (real_of_int date)) 0)"

definition getFullYear :: "TimeZone \<Rightarrow> Date \<Rightarrow> int" where
  "getFullYear tz t = YearFromTime (LocalTime tz t)"

definition getMonth :: "TimeZone \<Rightarrow> Date \<Rightarrow> int" where
  "getMonth tz t = MonthFromTime (LocalTime tz t)"

definition getDate :: "TimeZone \<Rightarrow> Date \<Rightarrow> int" where
  "getDate tz t = DateFromTime (LocalTime tz t)"

definition getDay :: "TimeZone \<Rightarrow> Date \<Rightarrow> int" where
  "getDay tz t = WeekDay (LocalTime tz t)"

text \<open>
  \<open>setDate\<close> replaces the day of the month of the local time and converts back.
  Its \<open>TimeClip\<close> is left out: the component applies it to the current date only,
  moved by half a year.
\<close>

definition setDate :: "TimeZone \<Rightarrow> Date \<Rightarrow> real \<Rightarrow> Date" where
  "setDate tz t date =
     (let t' = LocalTime tz t;
          newDate = MakeDate (MakeDay (YearFromTime t') (MonthFromTime t') date)
                      (TimeWithinDay t')
      in UTC tz newDate)"

definition getUTCFullYear :: "Date \<Rightarrow> int" where
  "getUTCFullYear t = YearFromTime t"

definition getUTCDate :: "Date \<Rightarrow> int" where
  "getUTCDate t = DateFromTime t"

definition getUTCDay :: "Date \<Rightarrow> int" where
  "getUTCDay t = WeekDay t"

definition setUTCDate :: "Date \<Rightarrow> real \<Rightarrow> Date option" where
  "setUTCDate t date =
     TimeClip (MakeDate (MakeDay (YearFromTime t) (MonthFromTime t) date) (TimeWithinDay t))"

subsection \<open>Facts about the Date library\<close>

lemma yearUp_bounds:
  "DayFromYear y \<le> d \<Longrightarrow>
   DayFromYear (yearUp y d) \<le> d \<and> d < DayFromYear (yearUp y d + 1)"
proof (induction y d rule: yearUp.induct)
  case (1 y d)
  show ?case
  proof (cases "DayFromYear (y + 1) \<le> d")
    case True
    with "1.IH" show ?thesis by (subst (1 2) yearUp.simps) simp
  next
    case False
    with "1.prems" show ?thesis by (subst (1 2) yearUp.simps) simp
  qed
qed

lemma DayFromYear_1970: "DayFromYear 1970 = 0"
  by (simp add: DayFromYear_def)

lemma DayFromYear_upper: "0 \<le> k \<Longrightarrow> DayFromYear (1970 + k) \<le> 366 * k"
proof (induction k rule: int_ge_induct)
  case base
  show ?case by (simp add: DayFromYear_1970)
next
  case (step i)
  have "DayFromYear (1970 + (i + 1)) = DayFromYear (1970 + i) + DaysInYear (1970 + i)"
    using DayFromYear_Suc [of "1970 + i"] by (simp add: add.assoc)
  with step DaysInYear_cases [of "1970 + i"] show ?case by auto
qed

lemma DayFromYear_lower: "k \<le> 0 \<Longrightarrow> DayFromYear (1970 + k) \<le> 365 * k"
proof (induction k rule: int_le_induct)
  case base
  show ?case by (simp add: DayFromYear_1970)
next
  case (step i)
  have "DayFromYear (1970 + i) = DayFromYear (1970 + (i - 1)) + DaysInYear (1970 + (i - 1))"
    using DayFromYear_Suc [of "1970 + (i - 1)"] by simp
  with step DaysInYear_cases [of "1970 + (i - 1)"] show ?case by auto
qed

lemma YearFromDay_start:
  "DayFromYear (1970 + (if 0 \<le> d then d div 366 else d div 365)) \<le> d"
proof (cases "0 \<le> d")
  case True
  then have "0 \<le> d div 366" by simp
  from DayFromYear_upper [OF this]
  have "DayFromYear (1970 + d div 366) \<le> 366 * (d div 366)" .
  also have "\<dots> \<le> d" by (simp add: mult.commute)
  finally show ?thesis using True by simp
next
  case False
  then have "d div 365 \<le> 0" by arith
  from DayFromYear_lower [OF this]
  have "DayFromYear (1970 + d div 365) \<le> 365 * (d div 365)" .
  also have "\<dots> \<le> d" by (simp add: mult.commute)
  finally show ?thesis using False by simp
qed

lemma YearFromDay_bounds:
  "DayFromYear (YearFromDay d) \<le> d \<and> d < DayFromYear (YearFromDay d + 1)"
  unfolding YearFromDay_def by (rule yearUp_bounds) (rule YearFromDay_start)

lemma DayWithinYear_range:
  "0 \<le> DayWithinYear t \<and> DayWithinYear t < 365 + InLeapYear t"
  using YearFromDay_bounds [of "Day t"] DaysInYear_cases [of "YearFromTime t"]
  by (auto simp: DayWithinYear_def YearFromTime_def InLeapYear_def DayFromYear_Suc)

lemma InLeapYear_cases: "InLeapYear t = 0 \<or> InLeapYear t = 1"
  by (simp add: InLeapYear_def)

lemma DateOfDay_alt: "DateOfDay d l = d - DaysBeforeMonth (MonthOfDay d l) l + 1"
  by (simp add: DateOfDay_def DaysBeforeMonth_def Let_def)

lemma MonthOfDay_range: "0 \<le> MonthOfDay d l \<and> MonthOfDay d l \<le> 11"
  by (simp add: MonthOfDay_def)

lemma DateOfDay_range:
  assumes "0 \<le> d" "d < 365 + l" "l = 0 \<or> l = 1"
  shows "1 \<le> DateOfDay d l \<and> DateOfDay d l \<le> 31"
  using assms unfolding DateOfDay_alt DaysBeforeMonth_def MonthOfDay_def
  by (auto split: if_splits)

lemma DateFromTime_range: "1 \<le> DateFromTime t \<and> DateFromTime t \<le> 31"
  unfolding DateFromTime_def
  using DayWithinYear_range [of t] InLeapYear_cases [of t]
  by (intro DateOfDay_range) auto

lemma DayOfMonthStart_DateFromTime:
  "DayOfMonthStart (YearFromTime t) (MonthFromTime t) + DateFromTime t - 1 = Day t"
  by (simp add: DayOfMonthStart_def DateFromTime_def MonthFromTime_def DateOfDay_alt
      InLeapYear_def DayWithinYear_def)

lemma MakeDay_shift:
  "MakeDay (YearFromTime t) (MonthFromTime t) x
     = Day t + (ToIntegerOrInfinity x - DateFromTime t)"
  using MonthOfDay_range [of "DayWithinYear t" "InLeapYear t"]
        DayOfMonthStart_DateFromTime [of t]
  by (simp add: MakeDay_def Let_def MonthFromTime_def div_pos_pos_trivial mod_pos_pos_trivial)

lemma Day_TimeWithinDay: "Day t * msPerDay + TimeWithinDay t = t"
  by (simp add: Day_def TimeWithinDay_def)

lemma MakeDate_shift:
  "MakeDate (MakeDay (YearFromTime t) (MonthFromTime t) x) (TimeWithinDay t)
     = t + (ToIntegerOrInfinity x - DateFromTime t) * msPerDay"
  using Day_TimeWithinDay [of t]
  by (simp add: MakeDate_def MakeDay_shift algebra_simps)

lemma setDate_shift:
  "setDate tz t x
     = UTC tz (LocalTime tz t + (ToIntegerOrInfinity x - getDate tz t) * msPerDay)"
  by (simp add: setDate_def Let_def MakeDate_shift getDate_def)

lemma setUTCDate_shift:
  "setUTCDate t x = TimeClip (t + (ToIntegerOrInfinity x - getUTCDate t) * msPerDay)"
  by (simp add: setUTCDate_def MakeDate_shift getUTCDate_def)

lemma ToIntegerOrInfinity_of_int: "ToIntegerOrInfinity (real_of_int n) = n"
  by (simp add: ToIntegerOrInfinity_def)

lemma setUTCDate_add:
  "setUTCDate t (real_of_int (getUTCDate t + n)) = TimeClip (t + n * msPerDay)"
  unfolding setUTCDate_shift ToIntegerOrInfinity_of_int by simp

lemma MakeDay_Jan1: "MakeDay y 0 1 = DayFromYear y"
  by (simp add: MakeDay_def DayOfMonthStart_def DaysBeforeMonth_def
      ToIntegerOrInfinity_def Let_def)

section \<open>Activities, layers and scope configurations\<close>

text \<open>
  The fields of \<open>Activity\<close>, \<open>Layer\<close> and \<open>ScopeConfig\<close> that the wheel reads.
  The field \<open>id\<close> of each is suffixed with the first letter of its type.
\<close>

record Activity =
  id_a :: string
  title :: string
  startDate :: Date
  endDate :: Date
  scope :: string

record Layer =
  id_l :: string
  name :: string
  color :: string
  ringIndex :: int
  isVisible :: bool

record ScopeConfig =
  id_s :: string
  label :: string
  color_s :: string
  ringIndex_s :: int

type_synonym ScopeFilters = "string \<rightharpoonup> bool"

subsection \<open>Array.prototype.sort\<close>

text \<open>
  \<open>Array.prototype.sort\<close> with a comparator is a stable sort: an element \<open>x\<close> goes
  before \<open>y\<close> when \<open>cmp x y < 0\<close>, and elements that compare equal keep their order.
\<close>

fun insert_sort :: "('a \<Rightarrow> 'a \<Rightarrow> int) \<Rightarrow> 'a \<Rightarrow> 'a list \<Rightarrow> 'a list" where
  "insert_sort cmp x [] = [x]"
| "insert_sort cmp x (y # ys) =
     (if cmp x y \<le> 0 then x # y # ys else y # insert_sort cmp x ys)"

definition sort_array :: "('a \<Rightarrow> 'a \<Rightarrow> int) \<Rightarrow> 'a list \<Rightarrow> 'a list" where
  "sort_array cmp xs = foldr (insert_sort cmp) xs []"

subsection \<open>layersToScopeConfigs\<close>

text \<open>
  \<^verbatim>\<open>layers.filter(l => l.isVisible)
        .sort((a, b) => a.ringIndex - b.ringIndex)
        .map(layer => ({ id: layer.id, label: layer.name, color: layer.color,
                         ringIndex: layer.ringIndex }))\<close>
\<close>

definition layersToScopeConfigs :: "Layer list \<Rightarrow> ScopeConfig list" where
  "layersToScopeConfigs layers =
     map (\<lambda>layer. \<lparr>id_s = id_l layer, label = name layer, color_s = color layer,
                    ringIndex_s = ringIndex layer\<rparr>)
       (sort_array (\<lambda>a b. ringIndex a - ringIndex b) (filter isVisible layers))"

section \<open>JavaScript numbers\<close>

text \<open>
  A JavaScript number is a double, \<open>Infinity\<close>, \<open>-Infinity\<close> or \<open>NaN\<close>. A finite
  number is represented by the real number it stands for; the sign of a zero is not
  tracked. The operations \<open>plus_number\<close>, \<open>minus_number\<close>, \<open>times_number\<close> and
  \<open>divide_number\<close> give the exact result of an operation; the result that the
  engine stores is the exact result rounded to a double (\<open>plus_double\<close> and so on).
\<close>

datatype number = Finite real | PosInfinity | NegInfinity | NaN

fun negate :: "number \<Rightarrow> number" where
  "negate (Finite x) = Finite (- x)"
| "negate PosInfinity = NegInfinity"
| "negate NegInfinity = PosInfinity"
| "negate NaN = NaN"

fun signed_infinity :: "real \<Rightarrow> number" where
  "signed_infinity s = (if s = 0 then NaN else if 0 < s then PosInfinity else NegInfinity)"

fun sign_of :: "number \<Rightarrow> real" where
  "sign_of (Finite x) = sgn x"
| "sign_of PosInfinity = 1"
| "sign_of NegInfinity = - 1"
| "sign_of NaN = 0"

fun plus_number :: "number \<Rightarrow> number \<Rightarrow> number" where
  "plus_number NaN b = NaN"
| "plus_number a NaN = NaN"
| "plus_number (Finite x) (Finite y) = Finite (x + y)"
| "plus_number (Finite x) b = b"
| "plus_number a (Finite y) = a"
| "plus_number a b = (if a = b then a else NaN)"

definition minus_number :: "number \<Rightarrow> number \<Rightarrow> number" where
  "minus_number a b = plus_number a (negate b)"

fun times_number :: "number \<Rightarrow> number \<Rightarrow> number" where
  "times_number NaN b = NaN"
| "times_number a NaN = NaN"
| "times_number (Finite x) (Finite y) = Finite (x * y)"
| "times_number a b = signed_infinity (sign_of a * sign_of b)"

fun divide_number :: "number \<Rightarrow> number \<Rightarrow> number" where
  "divide_number NaN b = NaN"
| "divide_number a NaN = NaN"
| "divide_number (Finite x) (Finite y) =
     (if y = 0 then signed_infinity (sgn x) else Finite (x / y))"
| "divide_number (Finite x) b = Finite 0"
| "divide_number a (Finite y) = (if y < 0 then negate a else a)"
| "divide_number a b = NaN"

text \<open>The comparison \<open><\<close>: false when an operand is \<open>NaN\<close>.\<close>

fun less_number :: "number \<Rightarrow> number \<Rightarrow> bool" where
  "less_number NaN b = False"
| "less_number a NaN = False"
| "less_number (Finite x) (Finite y) = (x < y)"
| "less_number a NegInfinity = False"
| "less_number PosInfinity b = False"
| "less_number a b = True"

subsection \<open>Rounding to double precision\<close>

text \<open>
  IEEE 754 binary64, rounding to nearest, ties to even. The doubles between \<open>2 ^ e\<close>
  and \<open>2 ^ (e + 1)\<close> are the multiples of the quantum \<open>2 ^ (e - 52)\<close>; below
  \<open>2 ^ - 1022\<close> they are the multiples of \<open>2 ^ - 1074\<close>. A result whose nearest
  multiple of the quantum is beyond the largest double is an infinity.
\<close>

definition roundTiesToEven :: "real \<Rightarrow> int" where
  "roundTiesToEven x =
     (let f = \<lfloor>x\<rfloor>; r = x - real_of_int f
      in if r < 1 / 2 then f
         else if 1 / 2 < r then f + 1
         else if even f then f else f + 1)"

text \<open>The exponent \<open>e\<close> with \<open>2 ^ e \<le> a < 2 ^ (e + 1)\<close>, for \<open>a > 0\<close>.\<close>

definition binaryExponent :: "real \<Rightarrow> int" where
  "binaryExponent a = (if 1 \<le> a then bitlen \<lfloor>a\<rfloor> - 1 else - bitlen (\<lceil>1 / a\<rceil> - 1))"

definition quantum :: "real \<Rightarrow> real" where
  "quantum a = 2 powi (max (binaryExponent a) (- 1022) - 52)"

definition nearestDouble :: "real \<Rightarrow> real" where
  "nearestDouble x =
     (if x = 0 then 0
      else sgn x * (real_of_int (roundTiesToEven (\<bar>x\<bar> / quantum \<bar>x\<bar>)) * quantum \<bar>x\<bar>))"

text \<open>The largest double, \<open>2 ^ 1024 - 2 ^ 971\<close>.\<close>

definition maxDouble :: real where
  "maxDouble = 179769313486231570814527423731704356798070567525844996598917476803157260780028538760589558632766878171540458953514382464234321326889464182768467546703537516986049910576551282076245490090389328944075868508455133942304583236903222948165808559332123348274797826204144723168738177180919299881250404026184124858368"

definition toDouble :: "real \<Rightarrow> number" where
  "toDouble x =
     (let y = nearestDouble x
      in if maxDouble < \<bar>y\<bar> then signed_infinity (sgn x) else Finite y)"

fun roundNumber :: "number \<Rightarrow> number" where
  "roundNumber (Finite x) = toDouble x"
| "roundNumber a = a"

definition plus_double :: "number \<Rightarrow> number \<Rightarrow> number" where
  "plus_double a b = roundNumber (plus_number a b)"

definition minus_double :: "number \<Rightarrow> number \<Rightarrow> number" where
  "minus_double a b = roundNumber (minus_number a b)"

definition times_double :: "number \<Rightarrow> number \<Rightarrow> number" where
  "times_double a b = roundNumber (times_number a b)"

definition divide_double :: "number \<Rightarrow> number \<Rightarrow> number" where
  "divide_double a b = roundNumber (divide_number a b)"

section \<open>getWeekNumber\<close>

text \<open>
  \<^verbatim>\<open>/** Get week number for a date (ISO week) */
  export function getWeekNumber(date: Date): number {
    const d = new Date(Date.UTC(date.getFullYear(), date.getMonth(), date.getDate()));
    const dayNum = d.getUTCDay() || 7;
    d.setUTCDate(d.getUTCDate() + 4 - dayNum);
    const yearStart = new Date(Date.UTC(d.getUTCFullYear(), 0, 1));
    return Math.ceil(((d.getTime() - yearStart.getTime()) / 86400000 + 1) / 7); }\<close>
  When one of the three dates built on the way is out of range, its time value is
  \<open>NaN\<close> and so is the result, here \<open>None\<close>. The two time values are whole days, so
  the quotient by 86400000 is exact, and the division by 7 is rounded by less than the
  distance of its exact value from the next integer: the ceiling is that of the exact
  value.
\<close>

definition getWeekNumber :: "TimeZone \<Rightarrow> Date \<Rightarrow> int option" where
  "getWeekNumber tz date =
     (case Date_UTC (getFullYear tz date) (getMonth tz date) (getDate tz date) of
        None \<Rightarrow> None
      | Some d0 \<Rightarrow>
          (let dayNum = (if getUTCDay d0 = 0 then 7 else getUTCDay d0)
           in case setUTCDate d0 (real_of_int (getUTCDate d0 + 4 - dayNum)) of
                None \<Rightarrow> None
              | Some d \<Rightarrow>
                  (case Date_UTC (getUTCFullYear d) 0 1 of
                     None \<Rightarrow> None
                   | Some yearStart \<Rightarrow>
                       Some \<lceil>(real_of_int (d - yearStart) / 86400000 + 1) / 7\<rceil>)))"

section \<open>ISO 8601 week numbers\<close>

text \<open>
  The week number that \<open>getWeekNumber\<close> is meant to compute, defined on day numbers
  (days since 1970-01-01, a Thursday) from the wording of ISO 8601: weeks start on
  Monday, a week belongs to the year that holds its Thursday, and week 1 of a year is
  the week that holds the first Thursday of the year.
\<close>

definition isoWeekday :: "int \<Rightarrow> int" where
  "isoWeekday day = (day + 3) mod 7 + 1"

definition thursdayOfWeek :: "int \<Rightarrow> int" where
  "thursdayOfWeek day = day - isoWeekday day + 4"

definition firstThursdayOfYear :: "int \<Rightarrow> int" where
  "firstThursdayOfYear y = (let jan1 = DayFromYear y in jan1 + (4 - isoWeekday jan1) mod 7)"

definition isoWeekNumber :: "int \<Rightarrow> int" where
  "isoWeekNumber day =
     (let thursday = thursdayOfWeek day;
          isoYear = YearFromDay thursday
      in (thursday - firstThursdayOfYear isoYear) div 7 + 1)"

definition twoDigitYear :: "int \<Rightarrow> bool" where
  "twoDigitYear y \<longleftrightarrow> 0 \<le> y \<and> y \<le> 99"

section \<open>AnnualWheel: constants\<close>

definition CENTER_X :: real where "CENTER_X = 300"
definition CENTER_Y :: real where "CENTER_Y = 300"
definition OUTER_RADIUS :: real where "OUTER_RADIUS = 280"
definition DAY_TICK_OUTER :: real where "DAY_TICK_OUTER = OUTER_RADIUS"
definition DAY_TICK_INNER :: real where "DAY_TICK_INNER = OUTER_RADIUS - 8"
definition WEEK_RING_OUTER :: real where "WEEK_RING_OUTER = DAY_TICK_INNER - 2"
definition WEEK_RING_INNER :: real where "WEEK_RING_INNER = WEEK_RING_OUTER - 20"
definition ACTIVITY_AREA_OUTER :: real where "ACTIVITY_AREA_OUTER = WEEK_RING_INNER - 5"
definition INNER_RADIUS :: real where "INNER_RADIUS = 60"

definition FULL_VIEW_DAYS :: real where
  "FULL_VIEW_DAYS = 365"

section \<open>AnnualWheel: the full-year window\<close>

text \<open>
  \<^verbatim>\<open>const start = new Date(today);
  start.setDate(start.getDate() - FULL_VIEW_DAYS / 2);\<close>
  and likewise with \<open>+\<close> for the end. The captured \<open>today\<close> and the time zone of the
  host are explicit parameters of every function that reads them.
\<close>

definition fullYearStartDate :: "TimeZone \<Rightarrow> Date \<Rightarrow> Date" where
  "fullYearStartDate tz today =
     setDate tz today (real_of_int (getDate tz today) - FULL_VIEW_DAYS / 2)"

definition fullYearEndDate :: "TimeZone \<Rightarrow> Date \<Rightarrow> Date" where
  "fullYearEndDate tz today =
     setDate tz today (real_of_int (getDate tz today) + FULL_VIEW_DAYS / 2)"

section \<open>AnnualWheel: filtering and sorting the activities\<close>

text \<open>
  \<^verbatim>\<open>scopeConfigs.find(s => s.id === scopeId)
     || { id: scopeId, label: scopeId, color: '#888888', ringIndex: 0 }\<close>
\<close>

definition getScopeConfigById :: "ScopeConfig list \<Rightarrow> string \<Rightarrow> ScopeConfig" where
  "getScopeConfigById scopeConfigs scopeId =
     (case find (\<lambda>s. id_s s = scopeId) scopeConfigs of
        Some s \<Rightarrow> s
      | None \<Rightarrow> \<lparr>id_s = scopeId, label = scopeId, color_s = ''#888888'', ringIndex_s = 0\<rparr>)"

text \<open>\<^verbatim>\<open>activities.filter((a) => scopeFilters[a.scope])\<close>: a missing key is falsy.\<close>

definition filteredActivities :: "Activity list \<Rightarrow> ScopeFilters \<Rightarrow> Activity list" where
  "filteredActivities activities scopeFilters =
     filter (\<lambda>a. scopeFilters (scope a) = Some True) activities"

text \<open>
  \<^verbatim>\<open>(a, b) => { const scopeA = getScopeConfigById(a.scope);
               const scopeB = getScopeConfigById(b.scope);
               if (scopeA.ringIndex !== scopeB.ringIndex)
                 return scopeA.ringIndex - scopeB.ringIndex;
               return a.startDate.getTime() - b.startDate.getTime(); }\<close>
\<close>

definition compareActivities :: "ScopeConfig list \<Rightarrow> Activity \<Rightarrow> Activity \<Rightarrow> int" where
  "compareActivities scopeConfigs a b =
     (let scopeA = getScopeConfigById scopeConfigs (scope a);
          scopeB = getScopeConfigById scopeConfigs (scope b)
      in if ringIndex_s scopeA \<noteq> ringIndex_s scopeB
         then ringIndex_s scopeA - ringIndex_s scopeB
         else startDate a - startDate b)"

definition sortedActivities ::
  "Layer list \<Rightarrow> Activity list \<Rightarrow> ScopeFilters \<Rightarrow> Activity list" where
  "sortedActivities layers activities scopeFilters =
     sort_array (compareActivities (layersToScopeConfigs layers))
       (filteredActivities activities scopeFilters)"


definition SCOPE_RINGS :: "Layer list \<Rightarrow> nat" where
  "SCOPE_RINGS layers = length layers"

section \<open>AnnualWheel: ring backgrounds\<close>

text \<open>
  The SVG path of a ring background is a function of its two radii and is left out.
  \<^verbatim>\<open>const totalRingSpace = ACTIVITY_AREA_OUTER - INNER_RADIUS - 10;
  const scopeRingThickness = totalRingSpace / (layers.length || 1);
  const sortedLayers = [...layers].sort((a, b) => a.ringIndex - b.ringIndex);
  return sortedLayers.map((layer, index) => {
    const innerR = INNER_RADIUS + 10 + index * scopeRingThickness;
    const outerR = innerR + scopeRingThickness - 1; ... });\<close>
\<close>

record RingBackground =
  id_r :: string
  color_r :: string
  innerRadius :: real
  outerRadius :: real

definition scopeRingBackgrounds :: "Layer list \<Rightarrow> RingBackground list" where
  "scopeRingBackgrounds layers =
     (let totalRingSpace = ACTIVITY_AREA_OUTER - INNER_RADIUS - 10;
          scopeRingThickness =
            totalRingSpace / real (if length layers = 0 then 1 else length layers);
          sortedLayers = sort_array (\<lambda>a b. ringIndex a - ringIndex b) layers
      in map (\<lambda>(index, layer).
                let innerR = INNER_RADIUS + 10 + real index * scopeRingThickness;
                    outerR = innerR + scopeRingThickness - 1
                in \<lparr>id_r = id_l layer, color_r = color layer,
                    innerRadius = innerR, outerRadius = outerR\<rparr>)
           (enumerate 0 sortedLayers))"

section \<open>AnnualWheel: layer assignment\<close>

record LayerInfo =
  scopeRing :: int
  subLayer :: nat

type_synonym Assigned = "(Activity \<times> nat) list"

type_synonym LayerMap = "string \<rightharpoonup> LayerInfo"

definition maxSubLayers :: nat where
  "maxSubLayers = 3"

text \<open>
  \<^verbatim>\<open>assigned.some((a) => a.subLayer === l &&
      activity.startDate <= a.activity.endDate &&
      activity.endDate >= a.activity.startDate)\<close>
\<close>

definition overlaps :: "Assigned \<Rightarrow> Activity \<Rightarrow> nat \<Rightarrow> bool" where
  "overlaps assigned activity l =
     list_ex (\<lambda>a. snd a = l \<and> startDate activity \<le> endDate (fst a)
                   \<and> endDate activity \<ge> startDate (fst a)) assigned"

text \<open>
  \<^verbatim>\<open>let subLayer = 0;
  for (let l = 0; l < maxSubLayers; l++) {
    const overlaps = ...;
    if (!overlaps) { subLayer = l; break; }
    subLayer = l + 1;
  }\<close>
  \<open>findSubLayer assigned activity l\<close> is the value of \<open>subLayer\<close> after the loop, when
  the loop is entered with counter \<open>l\<close> (and \<open>subLayer = l\<close>).
\<close>

function findSubLayer :: "Assigned \<Rightarrow> Activity \<Rightarrow> nat \<Rightarrow> nat" where
  "findSubLayer assigned activity l =
     (if l < maxSubLayers
      then (if \<not> overlaps assigned activity l then l
            else findSubLayer assigned activity (l + 1))
      else l)"
  by pat_completeness auto
termination
  by (relation "measure (\<lambda>(assigned, activity, l). maxSubLayers - l)") auto

declare findSubLayer.simps [simp del]

text \<open>
  The body of \<open>scopeActivities.forEach\<close>:
  \<^verbatim>\<open>subLayer = Math.min(subLayer, maxSubLayers - 1);
  assigned.push({ activity, subLayer });
  layerMap.set(activity.id, { scopeRing: scopeConfig.ringIndex, subLayer });\<close>
\<close>

definition assignActivity ::
  "ScopeConfig \<Rightarrow> Assigned \<times> LayerMap \<Rightarrow> Activity \<Rightarrow> Assigned \<times> LayerMap" where
  "assignActivity scopeConfig st activity =
     (let assigned = fst st; layerMap = snd st;
          subLayer = min (findSubLayer assigned activity 0) (maxSubLayers - 1)
      in (assigned @ [(activity, subLayer)],
          layerMap(id_a activity \<mapsto>
            \<lparr>scopeRing = ringIndex_s scopeConfig, subLayer = subLayer\<rparr>)))"

text \<open>
  The body of \<open>scopeConfigs.forEach\<close>: the activities of the scope, in sorted order,
  are assigned one after the other, starting from an empty \<open>assigned\<close> list.
\<close>

definition assignScope :: "Activity list \<Rightarrow> LayerMap \<Rightarrow> ScopeConfig \<Rightarrow> LayerMap" where
  "assignScope sortedActs layerMap scopeConfig =
     (let scopeActivities = filter (\<lambda>a. scope a = id_s scopeConfig) sortedActs
      in snd (foldl (assignActivity scopeConfig) ([], layerMap) scopeActivities))"

definition activityLayersOf :: "ScopeConfig list \<Rightarrow> Activity list \<Rightarrow> LayerMap" where
  "activityLayersOf scopeConfigs sortedActs = foldl (assignScope sortedActs) Map.empty scopeConfigs"

definition activityLayers :: "Layer list \<Rightarrow> Activity list \<Rightarrow> ScopeFilters \<Rightarrow> LayerMap" where
  "activityLayers layers activities scopeFilters =
     activityLayersOf (layersToScopeConfigs layers)
       (sortedActivities layers activities scopeFilters)"

section \<open>AnnualWheel: date to angle\<close>


text \<open>The same function as the engine evaluates it, each operation rounded to a double.\<close>

definition dateToAngle_double :: "Date \<Rightarrow> Date \<Rightarrow> number" where
  "dateToAngle_double today date =
     (let daysDiff =
            divide_double
              (minus_double (Finite (real_of_int date)) (Finite (real_of_int today)))
              (Finite (1000 * 60 * 60 * 24));
          degreesPerDay = divide_double (Finite 360) (Finite FULL_VIEW_DAYS)
      in times_double daysDiff degreesPerDay)"

text \<open>
  \<open>createArcPath\<close> renders its four arguments as an SVG path string; the string is a
  function of the arguments, which stand for it here.
\<close>

record ArcPath =
  startAngleDeg :: number
  endAngleDeg :: number
  innerR :: number
  outerR :: number

definition createArcPath :: "number \<Rightarrow> number \<Rightarrow> number \<Rightarrow> number \<Rightarrow> ArcPath" where
  "createArcPath startAngleDeg' endAngleDeg' innerR' outerR' =
     \<lparr>startAngleDeg = startAngleDeg', endAngleDeg = endAngleDeg',
      innerR = innerR', outerR = outerR'\<rparr>"

section \<open>AnnualWheel: activity arcs\<close>

record ActivityArc =
  activity :: Activity
  path :: ArcPath
  scopeRing_arc :: int
  subLayer_arc :: nat
  startAngle :: number
  endAngle :: number

text \<open>
  The body of \<open>sortedActivities.map\<close>; \<open>None\<close> is the \<open>null\<close> that
  \<open>.filter(Boolean)\<close> removes afterwards.
  \<^verbatim>\<open>const totalRingSpace = ACTIVITY_AREA_OUTER - INNER_RADIUS - 10;
  const scopeRingThickness = totalRingSpace / SCOPE_RINGS;
  const subLayerThickness = scopeRingThickness / 3;
  const minArcDegrees = 3;
  ...
  if (activity.endDate < start || activity.startDate > end) return null;
  const layerInfo = layers.get(activity.id) || { scopeRing: 0, subLayer: 0 };
  const scopeRingStart = INNER_RADIUS + 10 + layerInfo.scopeRing * scopeRingThickness;
  const innerR = scopeRingStart + layerInfo.subLayer * subLayerThickness;
  const outerR = innerR + subLayerThickness - 2;
  let actStartAngle = dateToAngle(activity.startDate);
  let actEndAngle = dateToAngle(activity.endDate);
  if (actEndAngle - actStartAngle < minArcDegrees) {
    const midAngle = (actStartAngle + actEndAngle) / 2;
    actStartAngle = midAngle - minArcDegrees / 2;
    actEndAngle = midAngle + minArcDegrees / 2;
  }\<close>
\<close>

text \<open>\<^verbatim>\<open>layers.get(activity.id) || { scopeRing: 0, subLayer: 0 }\<close>\<close>

definition layerInfoOf :: "LayerMap \<Rightarrow> Activity \<Rightarrow> LayerInfo" where
  "layerInfoOf layerMap activity' =
     (case layerMap (id_a activity') of
        Some info \<Rightarrow> info
      | None \<Rightarrow> \<lparr>scopeRing = 0, subLayer = 0\<rparr>)"

definition activityArc ::
  "TimeZone \<Rightarrow> Date \<Rightarrow> Layer list \<Rightarrow> LayerMap \<Rightarrow> Activity \<Rightarrow> ActivityArc option" where
  "activityArc tz today layers layerMap activity' =
     (let start = fullYearStartDate tz today;
          end = fullYearEndDate tz today;
          totalRingSpace = ACTIVITY_AREA_OUTER - INNER_RADIUS - 10;
          scopeRingThickness =
            divide_double (Finite totalRingSpace) (Finite (real (SCOPE_RINGS layers)));
          subLayerThickness = divide_double scopeRingThickness (Finite 3);
          minArcDegrees = Finite 3
      in if endDate activity' < start \<or> startDate activity' > end then None
         else
          (let layerInfo = layerInfoOf layerMap activity';
               scopeRingStart =
                 plus_double (Finite (INNER_RADIUS + 10))
                   (times_double (Finite (real_of_int (scopeRing layerInfo)))
                      scopeRingThickness);
               innerR' =
                 plus_double scopeRingStart
                   (times_double (Finite (real (subLayer layerInfo))) subLayerThickness);
               outerR' = minus_double (plus_double innerR' subLayerThickness) (Finite 2);
               actStartAngle = dateToAngle_double today (startDate activity');
               actEndAngle = dateToAngle_double today (endDate activity');
               short = less_number (minus_double actEndAngle actStartAngle) minArcDegrees;
               midAngle = divide_double (plus_double actStartAngle actEndAngle) (Finite 2);
               actStartAngle' =
                 (if short then minus_double midAngle (divide_double minArcDegrees (Finite 2))
                  else actStartAngle);
               actEndAngle' =
                 (if short then plus_double midAngle (divide_double minArcDegrees (Finite 2))
                  else actEndAngle)
           in Some \<lparr>activity = activity',
                    path = createArcPath actStartAngle' actEndAngle' innerR' outerR',
                    scopeRing_arc = scopeRing layerInfo,
                    subLayer_arc = subLayer layerInfo,
                    startAngle = actStartAngle',
                    endAngle = actEndAngle'\<rparr>))"

definition activityArcsOf ::
  "TimeZone \<Rightarrow> Date \<Rightarrow> Layer list \<Rightarrow> Activity list \<Rightarrow> ActivityArc list" where
  "activityArcsOf tz today layers sortedActs =
     (let layerMap = activityLayersOf (layersToScopeConfigs layers) sortedActs
      in List.map_filter (activityArc tz today layers layerMap) sortedActs)"

definition activityArcs ::
  "TimeZone \<Rightarrow> Date \<Rightarrow> Layer list \<Rightarrow> Activity list \<Rightarrow> ScopeFilters \<Rightarrow> ActivityArc list" where
  "activityArcs tz today layers activities scopeFilters =
     activityArcsOf tz today layers (sortedActivities layers activities scopeFilters)"

section \<open>AnnualWheel: target rotation\<close>


section \<open>Example inputs\<close>

text \<open>
  Two time zones: UTC, and Europe/Oslo as it is between the end of October 2024 and the
  end of March 2026 (one hour ahead of UTC, two hours from 2025-03-30T01:00Z to
  2025-10-26T01:00Z; a local time that the change skips or repeats is read with the
  offset in effect before the change).
\<close>

definition zone_UTC :: TimeZone where
  "zone_UTC = \<lparr>LocalTZA_UTC = (\<lambda>t. 0), LocalTZA_local = (\<lambda>t. 0)\<rparr>"

definition zone_Oslo :: TimeZone where
  "zone_Oslo =
     \<lparr>LocalTZA_UTC =
        (\<lambda>t. if 1743296400000 \<le> t \<and> t < 1761440400000 then 7200000 else 3600000),
      LocalTZA_local =
        (\<lambda>t. if 1743303600000 \<le> t \<and> t < 1761447600000 then 7200000 else 3600000)\<rparr>"

text \<open>The time value of 00:00 UTC on a day, given as year, month (from 0) and date.\<close>

definition midnightUTC :: "int \<Rightarrow> int \<Rightarrow> int \<Rightarrow> Date" where
  "midnightUTC year month date = MakeDate (MakeDay year month (real_of_int date)) 0"

text \<open>The instant 2025-06-15T00:00:00Z, taken as \<open>today\<close> in the examples.\<close>

definition today_2025_06_15 :: Date where
  "today_2025_06_15 = midnightUTC 2025 5 15"

definition layer_L1 :: Layer where
  "layer_L1 = \<lparr>id_l = ''L1'', name = ''Team'', color = ''#2ECC71'', ringIndex = 0,
                isVisible = True\<rparr>"

definition filters_L1 :: ScopeFilters where
  "filters_L1 = [''L1'' \<mapsto> True]"

text \<open>An activity from 2024-12-20 to 2024-12-22.\<close>

definition activity_december :: Activity where
  "activity_december = \<lparr>id_a = ''D'', title = ''December'',
     startDate = midnightUTC 2024 11 20, endDate = midnightUTC 2024 11 22, scope = ''L1''\<rparr>"

text \<open>An activity from 2024-12-10 to 2024-12-12.\<close>

definition activity_early :: Activity where
  "activity_early = \<lparr>id_a = ''E'', title = ''Early'',
     startDate = midnightUTC 2024 11 10, endDate = midnightUTC 2024 11 12, scope = ''L1''\<rparr>"

text \<open>An activity whose end (2025-06-18) is before its start (2025-06-20).\<close>

definition activity_inverted :: Activity where
  "activity_inverted = \<lparr>id_a = ''I'', title = ''Inverted'',
     startDate = midnightUTC 2025 5 20, endDate = midnightUTC 2025 5 18, scope = ''L1''\<rparr>"

text \<open>An activity that starts and ends at 2025-06-18T00:00:00Z.\<close>

definition activity_oneDay :: Activity where
  "activity_oneDay = \<lparr>id_a = ''O'', title = ''One day'',
     startDate = midnightUTC 2025 5 18, endDate = midnightUTC 2025 5 18, scope = ''L1''\<rparr>"


text \<open>A hidden layer with the id of \<open>layer_L1\<close>.\<close>

definition layer_hidden :: Layer where
  "layer_hidden = \<lparr>id_l = ''L1'', name = ''Team'', color = ''#2ECC71'', ringIndex = 1,
                    isVisible = False\<rparr>"

text \<open>Two visible layers with ring indices 0 and 2, and an activity of the second.\<close>

definition layer_A :: Layer where
  "layer_A = \<lparr>id_l = ''LA'', name = ''Holidays'', color = ''#E74C3C'', ringIndex = 0,
               isVisible = True\<rparr>"

definition layer_B :: Layer where
  "layer_B = \<lparr>id_l = ''LB'', name = ''Groups'', color = ''#2ECC71'', ringIndex = 2,
               isVisible = True\<rparr>"

definition activity_B :: Activity where
  "activity_B = \<lparr>id_a = ''B'', title = ''Workshop'',
     startDate = midnightUTC 2025 5 18, endDate = midnightUTC 2025 5 20, scope = ''LB''\<rparr>"

definition filters_AB :: ScopeFilters where
  "filters_AB = [''LA'' \<mapsto> True, ''LB'' \<mapsto> True]"




text \<open>The instant 0050-01-02T00:00:00Z, a Sunday.\<close>

definition date_0050_01_02 :: Date where
  "date_0050_01_02 = midnightUTC 50 0 2"

lemma today_2025_06_15_eq: "today_2025_06_15 = 1749945600000"
  by code_simp

lemma midnightUTC_examples:
  "midnightUTC 2024 11 20 = 1734652800000"
  "midnightUTC 2024 11 22 = 1734825600000"
  "midnightUTC 2024 11 10 = 1733788800000"
  "midnightUTC 2024 11 12 = 1733961600000"
  "midnightUTC 2024 11 15 = 1734220800000"
  "midnightUTC 2025 5 20 = 1750377600000"
  "midnightUTC 2025 5 18 = 1750204800000"
  by code_simp+

section \<open>Facts about the model\<close>


subsection \<open>The window and the arcs\<close>

lemma ToIntegerOrInfinity_minus_half:
  "n \<le> 182 \<Longrightarrow> ToIntegerOrInfinity (real_of_int n - 365 / 2) = n - 182"
  unfolding ToIntegerOrInfinity_def by (simp; linarith)

lemma ToIntegerOrInfinity_plus_half:
  "- 182 \<le> n \<Longrightarrow> ToIntegerOrInfinity (real_of_int n + 365 / 2) = n + 182"
  unfolding ToIntegerOrInfinity_def by (simp; linarith)

lemma getDate_range: "1 \<le> getDate tz t \<and> getDate tz t \<le> 31"
  unfolding getDate_def by (rule DateFromTime_range)

lemma fullYearStartDate_eq:
  "fullYearStartDate tz today = UTC tz (LocalTime tz today - 182 * msPerDay)"
  using getDate_range [of tz today]
  by (simp add: fullYearStartDate_def FULL_VIEW_DAYS_def setDate_shift
      ToIntegerOrInfinity_minus_half)

lemma fullYearEndDate_eq:
  "fullYearEndDate tz today = UTC tz (LocalTime tz today + 182 * msPerDay)"
  using getDate_range [of tz today]
  by (simp add: fullYearEndDate_def FULL_VIEW_DAYS_def setDate_shift
      ToIntegerOrInfinity_plus_half)

lemma activityArc_Some_iff:
  "(\<exists>arc. activityArc tz today layers layerMap a = Some arc)
   \<longleftrightarrow> \<not> (endDate a < fullYearStartDate tz today \<or> startDate a > fullYearEndDate tz today)"
  by (simp add: activityArc_def Let_def)

lemma activityArc_activity:
  "activityArc tz today layers layerMap a = Some arc \<Longrightarrow> activity arc = a"
  by (auto simp: activityArc_def Let_def split: if_splits)

lemma set_map_filter_iff: "y \<in> set (List.map_filter f xs) \<longleftrightarrow> (\<exists>x \<in> set xs. f x = Some y)"
  by (induction xs) (auto split: option.splits)

lemma in_activityArcsOf:
  "arc \<in> set (activityArcsOf tz today layers sortedActs) \<longleftrightarrow>
     (\<exists>a \<in> set sortedActs.
        activityArc tz today layers (activityLayersOf (layersToScopeConfigs layers) sortedActs) a
          = Some arc)"
  by (simp add: activityArcsOf_def Let_def set_map_filter_iff)

subsection \<open>Sorting keeps the elements\<close>

lemma mset_insert_sort: "mset (insert_sort cmp x xs) = add_mset x (mset xs)"
  by (induction xs) auto

lemma mset_sort_array: "mset (sort_array cmp xs) = mset xs"
  unfolding sort_array_def by (induction xs) (auto simp: mset_insert_sort)

lemma set_sort_array: "set (sort_array cmp xs) = set xs"
  using mset_sort_array [of cmp xs] by (metis set_mset_mset)

lemma sort_array_Nil: "sort_array cmp [] = []"
  by (simp add: sort_array_def)

lemma set_sortedActivities:
  "set (sortedActivities layers activities scopeFilters)
     = {a \<in> set activities. scopeFilters (scope a) = Some True}"
  by (auto simp: sortedActivities_def set_sort_array filteredActivities_def)

lemma in_activityArcs_activity:
  "a \<in> activity ` set (activityArcs tz today layers activities scopeFilters) \<longleftrightarrow>
     a \<in> set activities \<and> scopeFilters (scope a) = Some True
     \<and> \<not> (endDate a < fullYearStartDate tz today \<or> startDate a > fullYearEndDate tz today)"
    (is "?L \<longleftrightarrow> ?R")
proof
  assume ?L
  then obtain arc where arc: "arc \<in> set (activityArcs tz today layers activities scopeFilters)"
    and a: "a = activity arc" by auto
  from arc obtain b layerMap
    where b: "b \<in> set (sortedActivities layers activities scopeFilters)"
      and s: "activityArc tz today layers layerMap b = Some arc"
    unfolding activityArcs_def in_activityArcsOf by blast
  have "b = a" using activityArc_activity [OF s] a by simp
  with b s activityArc_Some_iff [of tz today layers layerMap a] show ?R
    by (auto simp: set_sortedActivities)
next
  assume r: ?R
  define layerMap where "layerMap = activityLayersOf (layersToScopeConfigs layers)
     (sortedActivities layers activities scopeFilters)"
  from r activityArc_Some_iff [of tz today layers layerMap a]
  obtain arc where s: "activityArc tz today layers layerMap a = Some arc" by blast
  have "a \<in> set (sortedActivities layers activities scopeFilters)"
    using r by (simp add: set_sortedActivities)
  with s have "arc \<in> set (activityArcs tz today layers activities scopeFilters)"
    unfolding activityArcs_def in_activityArcsOf layerMap_def by blast
  with activityArc_activity [OF s] show ?L by force
qed

subsection \<open>The layer map\<close>

lemma dom_foldl_assignActivity:
  "dom (snd (foldl (assignActivity sc) st xs)) = dom (snd st) \<union> id_a ` set xs"
  by (induction xs arbitrary: st) (auto simp: assignActivity_def Let_def)

lemma dom_assignScope:
  "dom (assignScope acts m sc) = dom m \<union> id_a ` {a \<in> set acts. scope a = id_s sc}"
  by (auto simp: assignScope_def Let_def dom_foldl_assignActivity)

lemma dom_foldl_assignScope:
  "dom (foldl (assignScope acts) m cfgs)
     = dom m \<union> id_a ` {a \<in> set acts. scope a \<in> id_s ` set cfgs}"
  by (induction cfgs arbitrary: m) (auto simp: dom_assignScope)

lemma dom_activityLayersOf:
  "dom (activityLayersOf cfgs acts) = id_a ` {a \<in> set acts. scope a \<in> id_s ` set cfgs}"
  by (simp add: activityLayersOf_def dom_foldl_assignScope)

lemma id_s_layersToScopeConfigs:
  "id_s ` set (layersToScopeConfigs layers) = id_l ` {l \<in> set layers. isVisible l}"
  by (auto simp: layersToScopeConfigs_def set_sort_array image_iff)

lemma activityArc_default:
  assumes "layerMap (id_a a) = None" "activityArc tz today layers layerMap a = Some arc"
  shows "scopeRing_arc arc = 0 \<and> subLayer_arc arc = 0"
  using assms by (auto simp: activityArc_def layerInfoOf_def Let_def split: if_splits)

subsection \<open>The assigned list\<close>

text \<open>
  Two functions for the proofs: the sub-layer that the loop body gives an activity, and
  the \<open>assigned\<close> list after a list of activities has been processed.
\<close>

definition assignedSubLayer :: "Assigned \<Rightarrow> Activity \<Rightarrow> nat" where
  "assignedSubLayer assigned x =
     min (findSubLayer assigned x 0) (maxSubLayers - 1)"


lemma fst_assignActivity:
  "fst (assignActivity sc st x) = fst st @ [(x, assignedSubLayer (fst st) x)]"
  by (simp add: assignActivity_def assignedSubLayer_def Let_def)














subsection \<open>The layer map after all scopes\<close>


subsection \<open>The sub-layer scan\<close>






subsection \<open>The stable sort as a sort by key\<close>





subsection \<open>Rounding to double precision\<close>

lemma roundTiesToEven_error: "\<bar>real_of_int (roundTiesToEven x) - x\<bar> \<le> 1 / 2"
  unfolding roundTiesToEven_def Let_def by (auto; linarith)

lemma roundTiesToEven_of_int: "roundTiesToEven (real_of_int n) = n"
  by (simp add: roundTiesToEven_def)

lemma roundTiesToEven_mono:
  assumes "x \<le> y"
  shows "roundTiesToEven x \<le> roundTiesToEven y"
proof (rule ccontr)
  assume "\<not> roundTiesToEven x \<le> roundTiesToEven y"
  then have gt: "roundTiesToEven y + 1 \<le> roundTiesToEven x" by simp
  then have "real_of_int (roundTiesToEven y) + 1 \<le> real_of_int (roundTiesToEven x)"
    by linarith
  with roundTiesToEven_error [of x] roundTiesToEven_error [of y] assms
  have "x = y" by linarith
  with gt show False by simp
qed

lemma bitlen_pos: "0 < n \<Longrightarrow> 1 \<le> bitlen n"
  using bitlen_eq_zero_iff [of n] bitlen_nonneg [of n] by linarith

lemma binaryExponent_bounds:
  assumes "0 < a"
  shows "2 powi binaryExponent a \<le> a \<and> a < 2 powi (binaryExponent a + 1)"
proof (cases "1 \<le> a")
  case True
  define n where "n = \<lfloor>a\<rfloor>"
  have n: "0 < n" using True by (simp add: n_def)
  have e: "binaryExponent a = bitlen n - 1" using True by (simp add: binaryExponent_def n_def)
  note b = bitlen_bounds [OF n] and p = bitlen_pos [OF n]
  have "real_of_int (2 ^ nat (bitlen n - 1)) \<le> real_of_int n" using b by linarith
  also have "\<dots> \<le> a" by (simp add: n_def)
  finally have lo: "2 powi (bitlen n - 1) \<le> a" using p by (simp add: power_int_nonneg_exp)
  have "n + 1 \<le> 2 ^ nat (bitlen n)" using b by linarith
  then have "real_of_int (n + 1) \<le> real_of_int (2 ^ nat (bitlen n))" by linarith
  moreover have "a < real_of_int (n + 1)" by (simp add: n_def)
  ultimately have hi: "a < 2 powi (bitlen n)" using p by (simp add: power_int_nonneg_exp)
  show ?thesis using lo hi by (simp add: e)
next
  case False
  define y where "y = 1 / a"
  define n where "n = \<lceil>y\<rceil> - 1"
  have y: "1 < y" using False assms by (simp add: y_def)
  then have n: "0 < n" by (simp add: n_def)
  have e: "binaryExponent a = - bitlen n" using False by (simp add: binaryExponent_def n_def y_def)
  note b = bitlen_bounds [OF n] and p = bitlen_pos [OF n]
  have ny: "real_of_int n < y" "y \<le> real_of_int n + 1" by (simp_all add: n_def) linarith+
  have a: "a = 1 / y" using assms by (simp add: y_def)
  have "n + 1 \<le> 2 ^ nat (bitlen n)" using b by linarith
  then have "real_of_int (n + 1) \<le> real_of_int (2 ^ nat (bitlen n))" by linarith
  with ny have "y \<le> 2 ^ nat (bitlen n)" by simp
  then have "1 / 2 ^ nat (bitlen n) \<le> 1 / y" using y by (simp add: frac_le)
  then have lo: "2 powi (- bitlen n) \<le> a"
    using p by (simp add: a power_int_minus_divide power_int_nonneg_exp)
  have "real_of_int (2 ^ nat (bitlen n - 1)) \<le> real_of_int n" using b by linarith
  then have "(2 :: real) ^ nat (bitlen n - 1) \<le> real_of_int n" by simp
  with ny have "2 ^ nat (bitlen n - 1) < y" by linarith
  then have "1 / y < 1 / 2 ^ nat (bitlen n - 1)" by (simp add: frac_less2)
  moreover have "(2 :: real) powi (- bitlen n + 1) = 1 / 2 ^ nat (bitlen n - 1)"
    using p power_int_minus_divide [of "2 :: real" "bitlen n - 1"]
    by (simp add: power_int_nonneg_exp)
  ultimately have hi: "a < 2 powi (- bitlen n + 1)" by (simp add: a)
  show ?thesis using lo hi by (simp add: e)
qed

lemma powi_split: "k + l = e \<Longrightarrow> (2 :: real) powi e = 2 powi k * 2 powi l"
  using power_int_add [of "2 :: real" k l] by auto

lemma quantum_pos: "0 < quantum a"
  by (simp add: quantum_def)

lemma nearestDouble_0: "nearestDouble 0 = 0"
  by (simp add: nearestDouble_def)

lemma nearestDouble_minus: "nearestDouble (- x) = - nearestDouble x"
  by (simp add: nearestDouble_def)

lemma nearestDouble_pos:
  "0 < a \<Longrightarrow> nearestDouble a = real_of_int (roundTiesToEven (a / quantum a)) * quantum a"
  by (simp add: nearestDouble_def)

lemma quantum_half:
  assumes "0 < a"
  shows "quantum a / 2 \<le> 2 powi (- 53) * max a (2 powi (- 1022))"
proof -
  define E where "E = max (binaryExponent a) (- 1022)"
  have "(2 :: real) powi (E - 52) = 2 powi (- 52) * 2 powi E"
    by (rule powi_split) simp
  then have q: "quantum a / 2 = 2 powi (- 53) * 2 powi E"
    by (simp add: quantum_def E_def)
  have "2 powi E \<le> max a (2 powi (- 1022))"
  proof (cases "- 1022 \<le> binaryExponent a")
    case True
    then have "E = binaryExponent a" by (simp add: E_def)
    with binaryExponent_bounds [OF assms] have "2 powi E \<le> a" by simp
    then show ?thesis by (rule max.coboundedI1)
  next
    case False
    then have "E = - 1022" by (simp add: E_def)
    then show ?thesis by (simp only: max.cobounded2)
  qed
  then show ?thesis unfolding q by (simp add: mult_left_mono)
qed

lemma nearestDouble_error_pos:
  assumes "0 < a"
  shows "\<bar>nearestDouble a - a\<bar> \<le> 2 powi (- 53) * max a (2 powi (- 1022))"
proof -
  define q where "q = quantum a"
  define m where "m = roundTiesToEven (a / q)"
  have q: "0 < q" by (simp add: q_def quantum_pos)
  have "nearestDouble a - a = (real_of_int m - a / q) * q"
    using q by (simp add: nearestDouble_pos [OF assms] m_def q_def algebra_simps)
  then have "\<bar>nearestDouble a - a\<bar> = \<bar>real_of_int m - a / q\<bar> * q"
    using q by (simp add: abs_mult)
  also have "\<dots> \<le> (1 / 2) * q"
    using roundTiesToEven_error [of "a / q"] q unfolding m_def by (intro mult_right_mono) simp_all
  also have "\<dots> \<le> 2 powi (- 53) * max a (2 powi (- 1022))"
    using quantum_half [OF assms] by (simp add: q_def)
  finally show ?thesis .
qed

lemma nearestDouble_error:
  "\<bar>nearestDouble x - x\<bar> \<le> 2 powi (- 53) * max \<bar>x\<bar> (2 powi (- 1022))"
proof -
  consider "x = 0" | "0 < x" | "x < 0" by linarith
  then show ?thesis
  proof cases
    case 1
    then show ?thesis by (simp add: nearestDouble_0)
  next
    case 2
    with nearestDouble_error_pos [OF 2] show ?thesis by simp
  next
    case 3
    then have p: "0 < - x" by simp
    have "\<bar>nearestDouble x - x\<bar> = \<bar>nearestDouble (- x) - (- x)\<bar>"
      unfolding nearestDouble_minus by simp
    with nearestDouble_error_pos [OF p] 3 show ?thesis by simp
  qed
qed

lemma nearestDouble_nonneg: "0 \<le> a \<Longrightarrow> 0 \<le> nearestDouble a"
proof -
  assume "0 \<le> a"
  show ?thesis
  proof (cases "a = 0")
    case True
    then show ?thesis by (simp add: nearestDouble_0)
  next
    case False
    with \<open>0 \<le> a\<close> have a: "0 < a" by simp
    have "0 \<le> a / quantum a" using a quantum_pos [of a] by simp
    then have "roundTiesToEven 0 \<le> roundTiesToEven (a / quantum a)"
      by (rule roundTiesToEven_mono)
    then have "0 \<le> roundTiesToEven (a / quantum a)"
      using roundTiesToEven_of_int [of 0] by simp
    then show ?thesis using quantum_pos [of a] by (simp add: nearestDouble_pos [OF a])
  qed
qed

lemma binaryExponent_mono:
  assumes "0 < a" "a \<le> b"
  shows "binaryExponent a \<le> binaryExponent b"
proof (rule ccontr)
  assume "\<not> binaryExponent a \<le> binaryExponent b"
  then have "binaryExponent b + 1 \<le> binaryExponent a" by simp
  then have "(2 :: real) powi (binaryExponent b + 1) \<le> 2 powi binaryExponent a"
    by (intro power_int_increasing) simp_all
  with binaryExponent_bounds [OF assms(1)] binaryExponent_bounds [of b] assms
  show False by simp
qed

lemma nearestDouble_mono_pos:
  assumes "0 < a" "a \<le> b"
  shows "nearestDouble a \<le> nearestDouble b"
proof -
  have b: "0 < b" using assms by simp
  define Ea where "Ea = max (binaryExponent a) (- 1022)"
  define Eb where "Eb = max (binaryExponent b) (- 1022)"
  have qa: "quantum a = 2 powi (Ea - 52)" and qb: "quantum b = 2 powi (Eb - 52)"
    by (simp_all add: quantum_def Ea_def Eb_def)
  have le: "Ea \<le> Eb" using binaryExponent_mono [OF assms] by (simp add: Ea_def Eb_def)
  show ?thesis
  proof (cases "Ea = Eb")
    case True
    then have q: "quantum a = quantum b" by (simp add: qa qb)
    have "a / quantum b \<le> b / quantum b"
      using assms quantum_pos [of b] by (simp add: divide_right_mono)
    then have "roundTiesToEven (a / quantum b) \<le> roundTiesToEven (b / quantum b)"
      by (rule roundTiesToEven_mono)
    then show ?thesis
      using quantum_pos [of b]
      by (simp add: nearestDouble_pos [OF assms(1)] nearestDouble_pos [OF b] q)
  next
    case False
    with le have lt: "Ea + 1 \<le> Eb" by simp
    then have eb: "Eb = binaryExponent b" by (auto simp: Eb_def Ea_def)
    have "a < 2 powi (binaryExponent a + 1)" using binaryExponent_bounds [OF assms(1)] by simp
    also have "\<dots> \<le> 2 powi (Ea + 1)"
      by (intro power_int_increasing) (simp_all add: Ea_def)
    finally have "a < 2 powi (Ea + 1)" .
    moreover have s53: "(2 :: real) powi (Ea + 1) = 2 powi 53 * 2 powi (Ea - 52)"
      by (rule powi_split) simp
    ultimately have "a / quantum a \<le> 2 powi 53"
      using quantum_pos [of a] by (simp add: qa pos_divide_le_eq)
    then have "roundTiesToEven (a / quantum a) \<le> roundTiesToEven (real_of_int (2 ^ 53))"
      by (intro roundTiesToEven_mono) simp
    then have "roundTiesToEven (a / quantum a) \<le> 2 ^ 53"
      unfolding roundTiesToEven_of_int .
    then have "real_of_int (roundTiesToEven (a / quantum a)) \<le> 2 powi 53"
      by (simp add: of_int_le_iff [symmetric] del: of_int_le_iff)
    then have "nearestDouble a \<le> 2 powi 53 * 2 powi (Ea - 52)"
      using quantum_pos [of a]
      by (simp add: nearestDouble_pos [OF assms(1)] qa mult_right_mono)
    also have "\<dots> = 2 powi (Ea + 1)" by (simp only: s53)
    also have "\<dots> \<le> 2 powi Eb" using lt by (intro power_int_increasing) simp_all
    finally have up: "nearestDouble a \<le> 2 powi Eb" .
    have "2 powi Eb \<le> b" using binaryExponent_bounds [OF b] by (simp add: eb)
    moreover have s52: "(2 :: real) powi Eb = 2 powi 52 * 2 powi (Eb - 52)"
      by (rule powi_split) simp
    ultimately have "2 powi 52 \<le> b / quantum b"
      using quantum_pos [of b] by (simp add: qb pos_le_divide_eq)
    then have "roundTiesToEven (real_of_int (2 ^ 52)) \<le> roundTiesToEven (b / quantum b)"
      by (intro roundTiesToEven_mono) simp
    then have "2 ^ 52 \<le> roundTiesToEven (b / quantum b)"
      unfolding roundTiesToEven_of_int .
    then have "2 powi 52 \<le> real_of_int (roundTiesToEven (b / quantum b))"
      by (simp add: of_int_le_iff [symmetric] del: of_int_le_iff)
    then have "2 powi 52 * 2 powi (Eb - 52) \<le> nearestDouble b"
      using quantum_pos [of b]
      by (simp add: nearestDouble_pos [OF b] qb mult_right_mono)
    then have "2 powi Eb \<le> nearestDouble b" by (simp only: s52)
    with up show ?thesis by simp
  qed
qed

lemma nearestDouble_mono:
  assumes "x \<le> y"
  shows "nearestDouble x \<le> nearestDouble y"
proof -
  consider "0 < x" | "x \<le> 0" "0 \<le> y" | "y < 0" using assms by linarith
  then show ?thesis
  proof cases
    case 1
    then show ?thesis using assms by (rule nearestDouble_mono_pos)
  next
    case 2
    have "nearestDouble x = - nearestDouble (- x)" by (simp add: nearestDouble_minus)
    with nearestDouble_nonneg [of "- x"] nearestDouble_nonneg [of y] 2 show ?thesis by simp
  next
    case 3
    then have "0 < - y" "- y \<le> - x" using assms by simp_all
    then have "nearestDouble (- y) \<le> nearestDouble (- x)" by (rule nearestDouble_mono_pos)
    then show ?thesis by (simp add: nearestDouble_minus)
  qed
qed

lemma nearestDouble_error_bound:
  assumes "\<bar>x\<bar> \<le> b" "1 \<le> b"
  shows "\<bar>nearestDouble x - x\<bar> \<le> b / 2 ^ 53"
proof -
  have "(2 :: real) powi (- 1022) \<le> 1" by simp
  with assms have "max \<bar>x\<bar> (2 powi (- 1022)) \<le> b" by simp
  then have "2 powi (- 53) * max \<bar>x\<bar> (2 powi (- 1022)) \<le> 2 powi (- 53) * b"
    by (intro mult_left_mono) simp_all
  with nearestDouble_error [of x] have "\<bar>nearestDouble x - x\<bar> \<le> 2 powi (- 53) * b"
    by linarith
  then show ?thesis by (simp add: field_simps)
qed

lemma toDouble_bounded:
  assumes "\<bar>x\<bar> \<le> B" "nearestDouble B = B" "B \<le> maxDouble"
  shows "toDouble x = Finite (nearestDouble x) \<and> \<bar>nearestDouble x\<bar> \<le> B"
proof -
  have "- B \<le> x" "x \<le> B" using assms(1) by auto
  then have "nearestDouble (- B) \<le> nearestDouble x" "nearestDouble x \<le> nearestDouble B"
    by (auto intro: nearestDouble_mono)
  then have b: "\<bar>nearestDouble x\<bar> \<le> B"
    using assms(2) by (simp add: nearestDouble_minus abs_le_iff)
  with assms(3) have "\<not> maxDouble < \<bar>nearestDouble x\<bar>" by linarith
  with b show ?thesis by (simp only: toDouble_def Let_def if_False simp_thms)
qed

lemma nearestDouble_fixed:
  "nearestDouble 18014398509481984 = 18014398509481984"
  "nearestDouble 536870912 = 536870912"
  "nearestDouble 268435456 = 268435456"
  by (simp_all add: nearestDouble_def quantum_def binaryExponent_def roundTiesToEven_def
      compute_bitlen)

lemma toDouble_54:
  "\<bar>x\<bar> \<le> 18014398509481984 \<Longrightarrow>
   toDouble x = Finite (nearestDouble x) \<and> \<bar>nearestDouble x\<bar> \<le> 18014398509481984"
  by (rule toDouble_bounded) (simp_all add: nearestDouble_fixed maxDouble_def)

lemma toDouble_29:
  "\<bar>x\<bar> \<le> 536870912 \<Longrightarrow>
   toDouble x = Finite (nearestDouble x) \<and> \<bar>nearestDouble x\<bar> \<le> 536870912"
  by (rule toDouble_bounded) (simp_all add: nearestDouble_fixed maxDouble_def)

lemma toDouble_28:
  "\<bar>x\<bar> \<le> 268435456 \<Longrightarrow>
   toDouble x = Finite (nearestDouble x) \<and> \<bar>nearestDouble x\<bar> \<le> 268435456"
  by (rule toDouble_bounded) (simp_all add: nearestDouble_fixed maxDouble_def)

subsection \<open>The angles in double precision\<close>

text \<open>
  For the proofs: the value of \<open>dateToAngle_double\<close> on valid dates, where no
  operation overflows; \<open>360 / 365\<close> rounds to \<open>2220953240895039 / 2 ^ 51\<close>.
\<close>

definition angleValue :: "Date \<Rightarrow> Date \<Rightarrow> real" where
  "angleValue today d =
     nearestDouble
       (nearestDouble (nearestDouble (real_of_int d - real_of_int today) / 86400000)
          * (2220953240895039 / 2251799813685248))"

lemma degreesPerDay_double:
  "divide_double (Finite 360) (Finite FULL_VIEW_DAYS)
     = Finite (2220953240895039 / 2251799813685248)"
  by (simp add: FULL_VIEW_DAYS_def divide_double_def toDouble_def maxDouble_def
      nearestDouble_def quantum_def binaryExponent_def roundTiesToEven_def compute_bitlen)

lemma half_minArcDegrees: "divide_double (Finite 3) (Finite 2) = Finite (3 / 2)"
  by (simp add: divide_double_def toDouble_def maxDouble_def
      nearestDouble_def quantum_def binaryExponent_def roundTiesToEven_def compute_bitlen)

lemma dateToAngle_double_value:
  assumes "validDate today" "validDate d"
  shows "dateToAngle_double today d = Finite (angleValue today d)
       \<and> \<bar>angleValue today d\<bar> \<le> 268435456"
proof -
  define x0 where "x0 = real_of_int d - real_of_int today"
  define x1 where "x1 = nearestDouble x0"
  define x2 where "x2 = nearestDouble (x1 / 86400000)"
  define c where "c = (2220953240895039 / 2251799813685248 :: real)"
  have "\<bar>x0\<bar> \<le> 18014398509481984"
    using assms by (simp add: validDate_def x0_def)
  from toDouble_54 [OF this]
  have r1: "toDouble x0 = Finite x1" and b1: "\<bar>x1\<bar> \<le> 18014398509481984"
    by (simp_all add: x1_def)
  have "\<bar>x1 / 86400000\<bar> \<le> 268435456" using b1 by simp
  from toDouble_28 [OF this]
  have r2: "toDouble (x1 / 86400000) = Finite x2" and b2: "\<bar>x2\<bar> \<le> 268435456"
    by (simp_all add: x2_def)
  have "\<bar>x2 * c\<bar> \<le> \<bar>x2\<bar> * 1"
    unfolding abs_mult by (intro mult_left_mono) (simp_all add: c_def)
  with b2 have "\<bar>x2 * c\<bar> \<le> 268435456" by simp
  from toDouble_28 [OF this]
  have r3: "toDouble (x2 * c) = Finite (nearestDouble (x2 * c))"
    and b3: "\<bar>nearestDouble (x2 * c)\<bar> \<le> 268435456"
    by simp_all
  have v: "angleValue today d = nearestDouble (x2 * c)"
    by (simp add: angleValue_def x2_def x1_def x0_def c_def)
  have "dateToAngle_double today d = Finite (nearestDouble (x2 * c))"
    unfolding dateToAngle_double_def Let_def degreesPerDay_double
    by (simp add: minus_double_def minus_number_def divide_double_def times_double_def
        x0_def [symmetric] r1 r2 r3 c_def [symmetric])
  with b3 v show ?thesis by simp
qed

lemma angleValue_mono: "d1 \<le> d2 \<Longrightarrow> angleValue today d1 \<le> angleValue today d2"
  unfolding angleValue_def
  by (intro nearestDouble_mono mult_right_mono divide_right_mono) simp_all

text \<open>The minimum-arc adjustment on two finite angles \<open>s\<close> and \<open>e\<close>.\<close>

lemma minimum_arc_angles:
  fixes s e :: real
  assumes s: "\<bar>s\<bar> \<le> 268435456" and e: "\<bar>e\<bar> \<le> 268435456"
  defines "m \<equiv> nearestDouble (nearestDouble (s + e) / 2)"
  shows "minus_double (Finite e) (Finite s) = Finite (nearestDouble (e - s))"
    and "divide_double (plus_double (Finite s) (Finite e)) (Finite 2) = Finite m"
    and "minus_double (Finite m) (Finite (3 / 2)) = Finite (nearestDouble (m - 3 / 2))"
    and "plus_double (Finite m) (Finite (3 / 2)) = Finite (nearestDouble (m + 3 / 2))"
    and "\<bar>nearestDouble (m + 3 / 2) - nearestDouble (m - 3 / 2) - 3\<bar>
           \<le> (\<bar>m\<bar> + 3 / 2) / 2 ^ 52"
    and "\<not> nearestDouble (e - s) < 3 \<Longrightarrow> 3 - (\<bar>m\<bar> + 3 / 2) / 2 ^ 52 \<le> e - s"
    and "e \<le> s \<Longrightarrow> nearestDouble (e - s) < 3"
proof -
  have "\<bar>e - s\<bar> \<le> 536870912" using s e by linarith
  from toDouble_29 [OF this]
  show "minus_double (Finite e) (Finite s) = Finite (nearestDouble (e - s))"
    by (simp add: minus_double_def minus_number_def)
  have "\<bar>s + e\<bar> \<le> 536870912" using s e by linarith
  from toDouble_29 [OF this]
  have sum: "toDouble (s + e) = Finite (nearestDouble (s + e))"
    and bs: "\<bar>nearestDouble (s + e)\<bar> \<le> 536870912"
    by simp_all
  have "\<bar>nearestDouble (s + e) / 2\<bar> \<le> 268435456" using bs by simp
  from toDouble_28 [OF this]
  have mid: "toDouble (nearestDouble (s + e) / 2) = Finite m" and bm: "\<bar>m\<bar> \<le> 268435456"
    by (simp_all add: m_def)
  show "divide_double (plus_double (Finite s) (Finite e)) (Finite 2) = Finite m"
    by (simp add: divide_double_def plus_double_def sum mid)
  have "\<bar>m - 3 / 2\<bar> \<le> 536870912" using bm by linarith
  from toDouble_29 [OF this]
  show "minus_double (Finite m) (Finite (3 / 2)) = Finite (nearestDouble (m - 3 / 2))"
    by (simp add: minus_double_def minus_number_def)
  have "\<bar>m + 3 / 2\<bar> \<le> 536870912" using bm by linarith
  from toDouble_29 [OF this]
  show "plus_double (Finite m) (Finite (3 / 2)) = Finite (nearestDouble (m + 3 / 2))"
    by (simp add: plus_double_def)
  have lo: "\<bar>nearestDouble (m - 3 / 2) - (m - 3 / 2)\<bar> \<le> (\<bar>m\<bar> + 3 / 2) / 2 ^ 53"
    by (rule nearestDouble_error_bound) linarith+
  have hi: "\<bar>nearestDouble (m + 3 / 2) - (m + 3 / 2)\<bar> \<le> (\<bar>m\<bar> + 3 / 2) / 2 ^ 53"
    by (rule nearestDouble_error_bound) linarith+
  have two: "(\<bar>m\<bar> + 3 / 2) / 2 ^ 52 = 2 * ((\<bar>m\<bar> + 3 / 2) / 2 ^ 53)" by simp
  show "\<bar>nearestDouble (m + 3 / 2) - nearestDouble (m - 3 / 2) - 3\<bar>
           \<le> (\<bar>m\<bar> + 3 / 2) / 2 ^ 52"
    unfolding two using lo hi by linarith
  show "3 - (\<bar>m\<bar> + 3 / 2) / 2 ^ 52 \<le> e - s" if n: "\<not> nearestDouble (e - s) < 3"
  proof -
    have m0: "(3 / 2) / 2 ^ 52 \<le> (\<bar>m\<bar> + 3 / 2) / 2 ^ 52"
      by (intro divide_right_mono) simp_all
    have "3 - (3 / 2) / 2 ^ 52 \<le> e - s"
    proof (cases "e - s \<le> 3")
      case False
      then show ?thesis by simp
    next
      case True
      have "\<not> e - s \<le> 0"
      proof
        assume "e - s \<le> 0"
        then have "nearestDouble (e - s) \<le> nearestDouble 0" by (rule nearestDouble_mono)
        with n show False by (simp add: nearestDouble_0)
      qed
      with True have "\<bar>e - s\<bar> \<le> 3" by simp
      then have "\<bar>nearestDouble (e - s) - (e - s)\<bar> \<le> 3 / 2 ^ 53"
        by (rule nearestDouble_error_bound) simp
      moreover have "(3 / 2) / 2 ^ 52 = (3 / 2 ^ 53 :: real)" by simp
      ultimately show ?thesis using n by linarith
    qed
    with m0 show ?thesis by linarith
  qed
  show "nearestDouble (e - s) < 3" if "e \<le> s"
  proof -
    from that have "e - s \<le> 0" by simp
    then have "nearestDouble (e - s) \<le> nearestDouble 0" by (rule nearestDouble_mono)
    then show ?thesis by (simp add: nearestDouble_0)
  qed
qed

subsection \<open>The fields of an arc\<close>

lemma activityArc_angles:
  assumes "activityArc tz today layers layerMap a = Some arc"
  shows "startAngle arc =
           (if less_number (minus_double (dateToAngle_double today (endDate a))
                              (dateToAngle_double today (startDate a))) (Finite 3)
            then minus_double
                   (divide_double (plus_double (dateToAngle_double today (startDate a))
                                     (dateToAngle_double today (endDate a))) (Finite 2))
                   (Finite (3 / 2))
            else dateToAngle_double today (startDate a))"
    and "endAngle arc =
           (if less_number (minus_double (dateToAngle_double today (endDate a))
                              (dateToAngle_double today (startDate a))) (Finite 3)
            then plus_double
                   (divide_double (plus_double (dateToAngle_double today (startDate a))
                                     (dateToAngle_double today (endDate a))) (Finite 2))
                   (Finite (3 / 2))
            else dateToAngle_double today (endDate a))"
  using assms by (auto simp: activityArc_def Let_def half_minArcDegrees split: if_splits)

lemma totalRingSpace_eq: "ACTIVITY_AREA_OUTER - INNER_RADIUS - 10 = 175"
  by (simp add: ACTIVITY_AREA_OUTER_def WEEK_RING_INNER_def WEEK_RING_OUTER_def
      DAY_TICK_INNER_def OUTER_RADIUS_def INNER_RADIUS_def)

lemma activityArc_radii:
  assumes "activityArc tz today layers layerMap a = Some arc"
  shows "scopeRing_arc arc = scopeRing (layerInfoOf layerMap a)"
    and "innerR (path arc) =
           plus_double
             (plus_double (Finite 70)
                (times_double (Finite (real_of_int (scopeRing (layerInfoOf layerMap a))))
                   (divide_double (Finite 175) (Finite (real (length layers))))))
             (times_double (Finite (real (subLayer (layerInfoOf layerMap a))))
                (divide_double (divide_double (Finite 175) (Finite (real (length layers))))
                   (Finite 3)))"
    and "outerR (path arc) =
           minus_double
             (plus_double (innerR (path arc))
                (divide_double (divide_double (Finite 175) (Finite (real (length layers))))
                   (Finite 3)))
             (Finite 2)"
  using assms
  by (auto simp: activityArc_def Let_def createArcPath_def SCOPE_RINGS_def
      ACTIVITY_AREA_OUTER_def WEEK_RING_INNER_def WEEK_RING_OUTER_def DAY_TICK_INNER_def
      OUTER_RADIUS_def INNER_RADIUS_def split: if_splits)

lemma sortedActivities_single:
  "scopeFilters (scope a) = Some True \<Longrightarrow> sortedActivities layers [a] scopeFilters = [a]"
  by (simp add: sortedActivities_def filteredActivities_def sort_array_def)

lemma activityArcs_single:
  assumes "scopeFilters (scope a) = Some True"
    and "\<not> (endDate a < fullYearStartDate tz today \<or> startDate a > fullYearEndDate tz today)"
  shows "\<exists>arc. activityArcs tz today layers [a] scopeFilters = [arc]
           \<and> activityArc tz today layers (activityLayers layers [a] scopeFilters) a = Some arc"
proof -
  from assms(2) activityArc_Some_iff [of tz today layers "activityLayers layers [a] scopeFilters" a]
  obtain arc
    where "activityArc tz today layers (activityLayers layers [a] scopeFilters) a = Some arc"
    by blast
  then show ?thesis
    using assms(1)
    by (simp add: activityArcs_def activityArcsOf_def Let_def sortedActivities_single
        activityLayers_def List.map_filter_def)
qed

text \<open>The definitions that evaluate an operation on doubles.\<close>

lemmas double_eval =
  plus_double_def minus_double_def times_double_def divide_double_def minus_number_def
  toDouble_def maxDouble_def nearestDouble_def quantum_def binaryExponent_def
  roundTiesToEven_def Let_def compute_bitlen

lemma window_UTC_2025_06_15:
  "fullYearStartDate zone_UTC today_2025_06_15 = midnightUTC 2024 11 15"
  "fullYearEndDate zone_UTC today_2025_06_15 = 1765670400000"
  by (simp_all add: fullYearStartDate_eq fullYearEndDate_eq UTC_def LocalTime_def zone_UTC_def
      today_2025_06_15_eq midnightUTC_examples msPerDay_def)

lemma window_Oslo_2025_06_15:
  "fullYearStartDate zone_Oslo today_2025_06_15 = midnightUTC 2024 11 15 + 3600000"
  "fullYearEndDate zone_Oslo today_2025_06_15 = 1765670400000 + 3600000"
  by (simp_all add: fullYearStartDate_eq fullYearEndDate_eq UTC_def LocalTime_def zone_Oslo_def
      today_2025_06_15_eq midnightUTC_examples msPerDay_def)

subsection \<open>Week numbers\<close>

lemma div7: "0 \<le> r \<Longrightarrow> r < 7 \<Longrightarrow> (7 * q + r) div 7 = q" for q r :: int
  by (simp add: div_pos_pos_trivial)

lemma mod7: "0 \<le> r \<Longrightarrow> r < 7 \<Longrightarrow> (7 * q + r) mod 7 = r" for q r :: int
  by (simp add: mod_pos_pos_trivial)

lemma dayNum_cases: "(if (n + 4) mod 7 = 0 then 7 else (n + 4) mod 7) = (n + 3) mod 7 + 1" for n :: int
proof -
  define q where "q = (n + 3) div 7"
  define r where "r = (n + 3) mod 7"
  have n: "n + 3 = 7 * q + r" and r: "0 \<le> r" "r < 7" by (simp_all add: q_def r_def)
  show ?thesis
  proof (cases "r = 6")
    case True
    then have "n + 4 = 7 * (q + 1) + 0" using n by simp
    then have "(n + 4) mod 7 = 0" by (simp only: mod7)
    with True show ?thesis by (simp add: r_def)
  next
    case False
    have "n + 4 = 7 * q + (r + 1)" using n by simp
    moreover have "0 \<le> r + 1" "r + 1 < 7" using r False by auto
    ultimately have "(n + 4) mod 7 = r + 1" by (simp only: mod7)
    with r show ?thesis by (simp add: r_def)
  qed
qed

lemma neg_div7: "- (- (k + 1) div 7) = k div 7 + 1" for k :: int
proof -
  define q where "q = k div 7"
  define r where "r = k mod 7"
  have k: "k = 7 * q + r" and r: "0 \<le> r" "r < 7" by (simp_all add: q_def r_def)
  have "- (k + 1) = 7 * (- q - 1) + (6 - r)" using k by simp
  moreover have "0 \<le> 6 - r" "6 - r < 7" using r by auto
  ultimately have "(- (k + 1)) div 7 = - q - 1" by (simp only: div7)
  then show ?thesis by (simp add: q_def)
qed

lemma thursday_multiple: "day - ((day + 3) mod 7 + 1) + 4 = 7 * ((day + 3) div 7)" for day :: int
  using mult_div_mod_eq [of 7 "day + 3"] by linarith

lemma first_thursday_div7:
  fixes th jan1 :: int
  assumes "th = 7 * t"
  shows "(th - (jan1 + (4 - ((jan1 + 3) mod 7 + 1)) mod 7)) div 7 = (th - jan1) div 7"
proof -
  define u where "u = (jan1 + 3) div 7"
  define s where "s = (jan1 + 3) mod 7"
  have j: "jan1 = 7 * u + s - 3" and s: "0 \<le> s" "s < 7"
    using mult_div_mod_eq [of 7 "jan1 + 3"] by (simp_all add: u_def s_def)
  show ?thesis
  proof (cases "s \<le> 3")
    case True
    then have o: "(4 - (s + 1)) mod 7 = 3 - s" using s by (simp add: mod_pos_pos_trivial)
    have l: "th - (jan1 + (3 - s)) = 7 * (t - u) + 0" using assms j by simp
    have r: "th - jan1 = 7 * (t - u) + (3 - s)" using assms j by simp
    have "(th - (jan1 + (3 - s))) div 7 = t - u" unfolding l by (rule div7) simp_all
    moreover have "(th - jan1) div 7 = t - u" unfolding r using True s by (intro div7) simp_all
    ultimately show ?thesis unfolding s_def [symmetric] o by simp
  next
    case False
    have "(10 - s) mod 7 = (3 - s) mod 7"
      using mod_add_self2 [of "3 - s" 7] by (simp add: algebra_simps)
    moreover have "(10 - s) mod 7 = 10 - s" using s False by (simp add: mod_pos_pos_trivial)
    ultimately have o: "(4 - (s + 1)) mod 7 = 10 - s" by simp
    have l: "th - (jan1 + (10 - s)) = 7 * (t - u - 1) + 0" using assms j by simp
    have r: "th - jan1 = 7 * (t - u - 1) + (10 - s)" using assms j by simp
    have "(th - (jan1 + (10 - s))) div 7 = t - u - 1" unfolding l by (rule div7) simp_all
    moreover have "(th - jan1) div 7 = t - u - 1"
      unfolding r using False s by (intro div7) simp_all
    ultimately show ?thesis unfolding s_def [symmetric] o by simp
  qed
qed

lemma week_index_range: "0 \<le> x \<Longrightarrow> x \<le> 365 \<Longrightarrow> 0 \<le> x div 7 \<and> x div 7 \<le> 52" for x :: int
  using zdiv_mono1 [of x 365 7] by (simp add: pos_imp_zdiv_nonneg_iff)

lemma Day_mult: "Day (n * msPerDay) = n"
  by (simp add: Day_def msPerDay_def)

lemma Day_bounds: "Day t * msPerDay \<le> t \<and> t < Day t * msPerDay + msPerDay"
proof -
  have "0 \<le> TimeWithinDay t" "TimeWithinDay t < msPerDay"
    by (simp_all add: TimeWithinDay_def msPerDay_def)
  with Day_TimeWithinDay [of t] show ?thesis by linarith
qed

lemma TimeClip_Some: "\<bar>t\<bar> \<le> 8640000000000000 \<Longrightarrow> TimeClip t = Some t"
  by (simp add: TimeClip_def)

lemma Date_UTC_fields:
  assumes "\<not> twoDigitYear (YearFromTime t)"
  shows "Date_UTC (YearFromTime t) (MonthFromTime t) (DateFromTime t)
           = TimeClip (Day t * msPerDay)"
proof -
  have "MakeFullYear (YearFromTime t) = YearFromTime t"
    using assms by (auto simp: MakeFullYear_def twoDigitYear_def)
  then show ?thesis
    using MakeDay_shift [of t "real_of_int (DateFromTime t)"]
    by (simp add: Date_UTC_def MakeDate_def ToIntegerOrInfinity_of_int)
qed

lemma Date_UTC_Jan1:
  assumes "\<not> twoDigitYear y"
  shows "Date_UTC y 0 1 = TimeClip (DayFromYear y * msPerDay)"
proof -
  have "MakeFullYear y = y" using assms by (auto simp: MakeFullYear_def twoDigitYear_def)
  then show ?thesis using MakeDay_Jan1 [of y] by (simp add: Date_UTC_def MakeDate_def)
qed

lemma dayNum_isoWeekday:
  "(if (n + 4) mod 7 = 0 then 7 else (n + 4) mod 7) = isoWeekday n" for n :: int
  unfolding isoWeekday_def by (rule dayNum_cases)

lemma ceiling_weeks: "\<lceil>(real_of_int k + 1) / 7\<rceil> = k div 7 + 1"
proof -
  have "\<lceil>(real_of_int k + 1) / 7\<rceil> = \<lceil>real_of_int (k + 1) / real_of_int 7\<rceil>" by simp
  also have "\<dots> = - (- (k + 1) div 7)" by (rule ceiling_divide_eq_div)
  also have "\<dots> = k div 7 + 1" by (rule neg_div7)
  finally show ?thesis .
qed

lemma isoWeekNumber_alt:
  "isoWeekNumber day
     = (thursdayOfWeek day - DayFromYear (YearFromDay (thursdayOfWeek day))) div 7 + 1"
proof -
  have th: "thursdayOfWeek day = 7 * ((day + 3) div 7)"
    unfolding thursdayOfWeek_def isoWeekday_def by (rule thursday_multiple)
  show ?thesis
    unfolding isoWeekNumber_def firstThursdayOfYear_def isoWeekday_def Let_def
    using first_thursday_div7 [OF th] by simp
qed

lemma isoWeekNumber_range: "1 \<le> isoWeekNumber day \<and> isoWeekNumber day \<le> 53"
proof -
  define th where "th = thursdayOfWeek day"
  define y where "y = YearFromDay th"
  have b: "DayFromYear y \<le> th" "th < DayFromYear y + DaysInYear y"
    using YearFromDay_bounds [of th] by (simp_all add: y_def DayFromYear_Suc)
  with DaysInYear_cases [of y] have "0 \<le> th - DayFromYear y" "th - DayFromYear y \<le> 365"
    by auto
  then have "0 \<le> (th - DayFromYear y) div 7 \<and> (th - DayFromYear y) div 7 \<le> 52"
    by (rule week_index_range)
  then show ?thesis by (simp add: isoWeekNumber_alt th_def y_def)
qed

lemma thursdayOfWeek_near: "day - 3 \<le> thursdayOfWeek day \<and> thursdayOfWeek day \<le> day + 3"
proof -
  have "0 \<le> (day + 3) mod 7" "(day + 3) mod 7 < 7" by simp_all
  then show ?thesis by (simp add: thursdayOfWeek_def isoWeekday_def)
qed

text \<open>
  Away from the years 0 to 99 and from the ends of the range of \<open>Date\<close>,
  \<open>getWeekNumber\<close> is the ISO 8601 week number of the local date, in every time zone.
\<close>

lemma getWeekNumber_iso:
  assumes y1: "\<not> twoDigitYear (getFullYear tz date)"
    and y2: "\<not> twoDigitYear (YearFromDay (thursdayOfWeek (Day (LocalTime tz date))))"
    and range: "\<bar>LocalTime tz date\<bar> + 400 * msPerDay \<le> 8640000000000000"
  shows "getWeekNumber tz date = Some (isoWeekNumber (Day (LocalTime tz date)))"
proof -
  define D where "D = Day (LocalTime tz date)"
  define th where "th = thursdayOfWeek D"
  define y where "y = YearFromDay th"
  define J where "J = DayFromYear y"
  have bD: "\<bar>D * msPerDay\<bar> \<le> \<bar>LocalTime tz date\<bar> + msPerDay"
    using Day_bounds [of "LocalTime tz date"] unfolding D_def by linarith
  have near: "D - 3 \<le> th" "th \<le> D + 3"
    using thursdayOfWeek_near [of D] by (simp_all add: th_def)
  have bth: "\<bar>th * msPerDay\<bar> \<le> \<bar>LocalTime tz date\<bar> + 4 * msPerDay"
  proof -
    have "(D - 3) * msPerDay \<le> th * msPerDay" "th * msPerDay \<le> (D + 3) * msPerDay"
      using near by (simp_all add: msPerDay_def)
    with bD show ?thesis by (simp add: algebra_simps; linarith)
  qed
  have yb: "J \<le> th" "th < J + 366"
    using YearFromDay_bounds [of th] DaysInYear_cases [of y]
    by (auto simp: J_def y_def DayFromYear_Suc)
  have bJ: "\<bar>J * msPerDay\<bar> \<le> \<bar>LocalTime tz date\<bar> + 370 * msPerDay"
  proof -
    have "(th - 366) * msPerDay \<le> J * msPerDay" "J * msPerDay \<le> th * msPerDay"
      using yb by (simp_all add: msPerDay_def)
    with bth show ?thesis by (simp add: algebra_simps; linarith)
  qed
  have pos: "0 < msPerDay" by (simp add: msPerDay_def)
  have d0: "Date_UTC (getFullYear tz date) (getMonth tz date) (getDate tz date)
      = Some (D * msPerDay)"
    unfolding getFullYear_def getMonth_def getDate_def
    using Date_UTC_fields [of "LocalTime tz date"] y1 bD range pos
    by (simp add: getFullYear_def D_def TimeClip_Some)
  have dn: "(if getUTCDay (D * msPerDay) = 0 then 7 else getUTCDay (D * msPerDay))
      = isoWeekday D"
    unfolding getUTCDay_def WeekDay_def Day_mult by (rule dayNum_isoWeekday)
  have "D * msPerDay + (4 - isoWeekday D) * msPerDay = th * msPerDay"
    by (simp add: th_def thursdayOfWeek_def algebra_simps)
  then have su: "setUTCDate (D * msPerDay)
        (real_of_int (getUTCDate (D * msPerDay) + (4 - isoWeekday D)))
      = Some (th * msPerDay)"
    unfolding setUTCDate_add using bth range pos by (simp add: TimeClip_Some)
  have yr: "getUTCFullYear (th * msPerDay) = y"
    by (simp add: getUTCFullYear_def YearFromTime_def Day_mult y_def)
  have js: "Date_UTC y 0 1 = Some (J * msPerDay)"
    using Date_UTC_Jan1 [of y] y2 bJ range pos
    by (simp add: y_def th_def D_def J_def TimeClip_Some)
  have "getUTCDate (D * msPerDay) + 4 - isoWeekday D
      = getUTCDate (D * msPerDay) + (4 - isoWeekday D)"
    by simp
  then have "getWeekNumber tz date
      = Some \<lceil>(real_of_int (th * msPerDay - J * msPerDay) / 86400000 + 1) / 7\<rceil>"
    unfolding getWeekNumber_def d0 option.case Let_def dn
    by (simp only: su yr js option.case)
  also have "real_of_int (th * msPerDay - J * msPerDay) / 86400000 = real_of_int (th - J)"
  proof -
    have "th * msPerDay - J * msPerDay = (th - J) * 86400000"
      by (simp add: msPerDay_def algebra_simps)
    then show ?thesis by simp
  qed
  also have "\<lceil>(real_of_int (th - J) + 1) / 7\<rceil> = (th - J) div 7 + 1"
    by (rule ceiling_weeks)
  also have "\<dots> = isoWeekNumber D"
    by (simp add: isoWeekNumber_alt th_def y_def J_def)
  finally show ?thesis by (simp add: D_def)
qed

text \<open>
  The week number is that of the local date: 2025-06-15T23:00Z is a Sunday of week 24 in
  UTC and a Monday of week 25 in Oslo.
\<close>

lemma getWeekNumber_zones:
  "getWeekNumber zone_UTC 1750028400000 = Some 24"
  "getWeekNumber zone_Oslo 1750028400000 = Some 25"
  by code_simp+

section \<open>Date to angle\<close>



section \<open>Minimum arc width\<close>

text \<open>
  C4, as the code has it. Take an arc of \<open>activityArcs\<close> whose activity has valid
  dates, \<open>today\<close> being valid too; the angles are computed in double precision. Let
  \<open>s\<close> and \<open>e\<close> be the projected start and end, \<open>mid\<close> the computed midpoint
  \<open>(s + e) / 2\<close>, and call the arc short when the computed \<open>e - s\<close> is below 3, which
  it is for every activity whose end date is before its start date. The angles of the
  arc are finite. A short arc runs from the double nearest \<open>mid - 1.5\<close> to the double
  nearest \<open>mid + 1.5\<close>, so its span is 3 up to the rounding of its two ends: it
  differs from 3 by at most \<open>(|mid| + 1.5) / 2 ^ 52\<close>. Any other arc keeps \<open>s\<close> and
  \<open>e\<close>. In both cases the span is at least \<open>3 - (|mid| + 1.5) / 2 ^ 52\<close>. The function
  is total: no input makes it fail.
\<close>

theorem minimum_arc:
  fixes tz today layers activities scopeFilters arc
  defines "s \<equiv> dateToAngle_double today (startDate (activity arc))"
  defines "e \<equiv> dateToAngle_double today (endDate (activity arc))"
  defines "mid \<equiv> divide_double (plus_double s e) (Finite 2)"
  defines "short \<equiv> less_number (minus_double e s) (Finite 3)"
  assumes arc: "arc \<in> set (activityArcs tz today layers activities scopeFilters)"
    and today: "validDate today"
    and start: "validDate (startDate (activity arc))"
    and "end": "validDate (endDate (activity arc))"
  shows "\<exists>sv ev mv.
           startAngle arc = Finite sv \<and> endAngle arc = Finite ev \<and> mid = Finite mv
         \<and> 3 - (\<bar>mv\<bar> + 3 / 2) / 2 ^ 52 \<le> ev - sv
         \<and> (short \<longrightarrow>
              startAngle arc = minus_double mid (Finite (3 / 2))
            \<and> endAngle arc = plus_double mid (Finite (3 / 2))
            \<and> \<bar>ev - sv - 3\<bar> \<le> (\<bar>mv\<bar> + 3 / 2) / 2 ^ 52)
         \<and> (\<not> short \<longrightarrow> startAngle arc = s \<and> endAngle arc = e)
         \<and> (endDate (activity arc) < startDate (activity arc) \<longrightarrow> short)"
proof -
  from arc obtain a layerMap where a: "activityArc tz today layers layerMap a = Some arc"
    unfolding activityArcs_def in_activityArcsOf by blast
  have act: "activity arc = a" using a by (rule activityArc_activity)
  define s0 where "s0 = angleValue today (startDate a)"
  define e0 where "e0 = angleValue today (endDate a)"
  define m0 where "m0 = nearestDouble (nearestDouble (s0 + e0) / 2)"
  have S: "s = Finite s0" and bs: "\<bar>s0\<bar> \<le> 268435456"
    using dateToAngle_double_value [OF today start] by (simp_all add: s_def s0_def act)
  have E: "e = Finite e0" and be: "\<bar>e0\<bar> \<le> 268435456"
    using dateToAngle_double_value [OF today "end"] by (simp_all add: e_def e0_def act)
  note core = minimum_arc_angles [OF bs be]
  have M: "mid = Finite m0" using core(2) by (simp add: mid_def S E m0_def)
  have sh: "short \<longleftrightarrow> nearestDouble (e0 - s0) < 3"
    by (simp add: short_def S E core(1))
  have lo: "minus_double mid (Finite (3 / 2)) = Finite (nearestDouble (m0 - 3 / 2))"
    using core(3) by (simp add: M m0_def)
  have hi: "plus_double mid (Finite (3 / 2)) = Finite (nearestDouble (m0 + 3 / 2))"
    using core(4) by (simp add: M m0_def)
  have err: "\<bar>nearestDouble (m0 + 3 / 2) - nearestDouble (m0 - 3 / 2) - 3\<bar>
      \<le> (\<bar>m0\<bar> + 3 / 2) / 2 ^ 52"
    using core(5) by (simp add: m0_def)
  have long: "3 - (\<bar>m0\<bar> + 3 / 2) / 2 ^ 52 \<le> e0 - s0" if "\<not> short"
    using core(6) that by (simp add: sh m0_def)
  have inv: "short" if "endDate (activity arc) < startDate (activity arc)"
  proof -
    from that have "e0 \<le> s0"
      unfolding e0_def s0_def act by (intro angleValue_mono) simp
    then show ?thesis unfolding sh by (rule core(7))
  qed
  have st: "startAngle arc = (if short then minus_double mid (Finite (3 / 2)) else s)"
    using activityArc_angles(1) [OF a] by (simp add: s_def e_def mid_def short_def act)
  have en: "endAngle arc = (if short then plus_double mid (Finite (3 / 2)) else e)"
    using activityArc_angles(2) [OF a] by (simp add: s_def e_def mid_def short_def act)
  show ?thesis
  proof (cases short)
    case True
    have "3 - (\<bar>m0\<bar> + 3 / 2) / 2 ^ 52
            \<le> nearestDouble (m0 + 3 / 2) - nearestDouble (m0 - 3 / 2)"
      using err by linarith
    with True st en lo hi M err inv show ?thesis
      apply (rule_tac x = "nearestDouble (m0 - 3 / 2)" in exI)
      apply (rule_tac x = "nearestDouble (m0 + 3 / 2)" in exI)
      apply (rule_tac x = m0 in exI)
      apply simp
      done
  next
    case False
    with st en S E M long inv show ?thesis
      apply (rule_tac x = s0 in exI)
      apply (rule_tac x = e0 in exI)
      apply (rule_tac x = m0 in exI)
      apply auto
      done
  qed
qed

theorem minimum_arc_witness:
  "hd (activityArcs zone_UTC today_2025_06_15 [layer_L1] [activity_inverted] filters_L1)
     \<in> set (activityArcs zone_UTC today_2025_06_15 [layer_L1] [activity_inverted] filters_L1)
   \<and> validDate today_2025_06_15
   \<and> validDate (startDate activity_inverted) \<and> validDate (endDate activity_inverted)
   \<and> endDate activity_inverted < startDate activity_inverted
   \<and> less_number
        (minus_double (dateToAngle_double today_2025_06_15 (endDate activity_inverted))
           (dateToAngle_double today_2025_06_15 (startDate activity_inverted)))
        (Finite 3)"
proof -
  let ?arcs = "activityArcs zone_UTC today_2025_06_15 [layer_L1] [activity_inverted] filters_L1"
  have f: "filters_L1 (scope activity_inverted) = Some True"
    by (simp add: filters_L1_def activity_inverted_def)
  have w: "\<not> (endDate activity_inverted < fullYearStartDate zone_UTC today_2025_06_15
              \<or> startDate activity_inverted > fullYearEndDate zone_UTC today_2025_06_15)"
    by (simp add: window_UTC_2025_06_15 activity_inverted_def midnightUTC_examples)
  from activityArcs_single [of filters_L1 activity_inverted zone_UTC today_2025_06_15 "[layer_L1]", OF f w]
  obtain arc where arcs: "?arcs = [arc]"
    and arc: "activityArc zone_UTC today_2025_06_15 [layer_L1]
                (activityLayers [layer_L1] [activity_inverted] filters_L1) activity_inverted
              = Some arc"
    by blast
  have m: "hd ?arcs \<in> set ?arcs" by (simp add: arcs)
  have h: "activity (hd ?arcs) = activity_inverted"
    using activityArc_activity [OF arc] by (simp add: arcs)
  have v: "validDate today_2025_06_15" "validDate (startDate activity_inverted)"
    "validDate (endDate activity_inverted)"
    by (simp_all add: validDate_def today_2025_06_15_eq activity_inverted_def
        midnightUTC_examples)
  have i: "endDate activity_inverted < startDate activity_inverted"
    by (simp add: activity_inverted_def midnightUTC_examples)
  from minimum_arc [OF m v(1)] v i m show ?thesis unfolding h by blast
qed

text \<open>
  An activity that starts and ends three days after \<open>today\<close> is projected to
  \<open>2.958904109589041\<close>; its arc runs from \<open>1.458904109589041\<close> to
  \<open>4.4589041095890405\<close>, which are \<open>3 - 2 ^ - 51\<close> apart.
\<close>

theorem one_day_arc_below_minimum:
  "validDate today_2025_06_15
   \<and> validDate (startDate activity_oneDay) \<and> validDate (endDate activity_oneDay)
   \<and> map (\<lambda>arc. (startAngle arc, endAngle arc))
        (activityArcs zone_UTC today_2025_06_15 [layer_L1] [activity_oneDay] filters_L1)
       = [(Finite (3285160002157245 / 2251799813685248),
           Finite (2510139860803247 / 562949953421312))]
   \<and> (2510139860803247 / 562949953421312 - 3285160002157245 / 2251799813685248 :: real)
       = 3 - 1 / 2 ^ 51
   \<and> (2510139860803247 / 562949953421312 - 3285160002157245 / 2251799813685248 :: real) < 3"
proof -
  let ?arcs = "activityArcs zone_UTC today_2025_06_15 [layer_L1] [activity_oneDay] filters_L1"
  have f: "filters_L1 (scope activity_oneDay) = Some True"
    by (simp add: filters_L1_def activity_oneDay_def)
  have w: "\<not> (endDate activity_oneDay < fullYearStartDate zone_UTC today_2025_06_15
              \<or> startDate activity_oneDay > fullYearEndDate zone_UTC today_2025_06_15)"
    by (simp add: window_UTC_2025_06_15 activity_oneDay_def midnightUTC_examples)
  from activityArcs_single [of filters_L1 activity_oneDay zone_UTC today_2025_06_15 "[layer_L1]", OF f w]
  obtain arc where arcs: "?arcs = [arc]"
    and arc: "activityArc zone_UTC today_2025_06_15 [layer_L1]
                (activityLayers [layer_L1] [activity_oneDay] filters_L1) activity_oneDay
              = Some arc"
    by blast
  have angle: "dateToAngle_double today_2025_06_15 1750204800000
      = Finite (6662859722685117 / 2251799813685248)"
    by (simp add: dateToAngle_double_def today_2025_06_15_eq FULL_VIEW_DAYS_def double_eval)
  have d: "startDate activity_oneDay = 1750204800000" "endDate activity_oneDay = 1750204800000"
    by (simp_all add: activity_oneDay_def midnightUTC_examples)
  have s: "startAngle arc = Finite (3285160002157245 / 2251799813685248)"
    unfolding activityArc_angles(1) [OF arc] d angle by (simp add: double_eval)
  have e: "endAngle arc = Finite (2510139860803247 / 562949953421312)"
    unfolding activityArc_angles(2) [OF arc] d angle by (simp add: double_eval)
  have v: "validDate today_2025_06_15" "validDate (startDate activity_oneDay)"
    "validDate (endDate activity_oneDay)"
    by (simp_all add: validDate_def today_2025_06_15_eq d)
  show ?thesis using v by (simp add: arcs s e)
qed

section \<open>Focus rotation\<close>



section \<open>The full-year window\<close>

text \<open>
  C6, as the code has it. The window runs from the instant that is 182 calendar days
  before \<open>today\<close> in local time, at the same local time of day, to the instant 182
  calendar days after it (\<open>setDate\<close> drops the half day of \<open>365 / 2\<close>). An activity is
  in the output exactly when it is one of the given activities, passes the scope filter
  and does not lie entirely outside the window (\<open>endDate < start\<close> or
  \<open>startDate > end\<close>). In a zone with a constant offset the window is \<open>today\<close> minus
  and plus 182 days of 24 hours; in a zone whose offsets are within 24 hours its ends are
  between 180 and 184 days from \<open>today\<close>.
\<close>

theorem window_inclusion:
  "fullYearStartDate tz today = UTC tz (LocalTime tz today - 182 * msPerDay)
   \<and> fullYearEndDate tz today = UTC tz (LocalTime tz today + 182 * msPerDay)
   \<and> (a \<in> activity ` set (activityArcs tz today layers activities scopeFilters) \<longleftrightarrow>
        a \<in> set activities \<and> scopeFilters (scope a) = Some True
        \<and> \<not> (endDate a < fullYearStartDate tz today \<or> startDate a > fullYearEndDate tz today))
   \<and> ((\<forall>t. LocalTZA_UTC tz t = c \<and> LocalTZA_local tz t = c) \<longrightarrow>
        fullYearStartDate tz today = today - 182 * msPerDay
        \<and> fullYearEndDate tz today = today + 182 * msPerDay)
   \<and> ((\<forall>t. \<bar>LocalTZA_UTC tz t\<bar> \<le> msPerDay \<and> \<bar>LocalTZA_local tz t\<bar> \<le> msPerDay) \<longrightarrow>
        today - 184 * msPerDay \<le> fullYearStartDate tz today
        \<and> fullYearStartDate tz today \<le> today - 180 * msPerDay
        \<and> today + 180 * msPerDay \<le> fullYearEndDate tz today
        \<and> fullYearEndDate tz today \<le> today + 184 * msPerDay)"
proof -
  have const: "fullYearStartDate tz today = today - 182 * msPerDay
        \<and> fullYearEndDate tz today = today + 182 * msPerDay"
    if "\<forall>t. LocalTZA_UTC tz t = c \<and> LocalTZA_local tz t = c"
    using that by (simp add: fullYearStartDate_eq fullYearEndDate_eq UTC_def LocalTime_def)
  have bounded: "today - 184 * msPerDay \<le> fullYearStartDate tz today
        \<and> fullYearStartDate tz today \<le> today - 180 * msPerDay
        \<and> today + 180 * msPerDay \<le> fullYearEndDate tz today
        \<and> fullYearEndDate tz today \<le> today + 184 * msPerDay"
    if b: "\<forall>t. \<bar>LocalTZA_UTC tz t\<bar> \<le> msPerDay \<and> \<bar>LocalTZA_local tz t\<bar> \<le> msPerDay"
  proof -
    have u: "\<bar>LocalTZA_UTC tz today\<bar> \<le> msPerDay" using b by blast
    have l1: "\<bar>LocalTZA_local tz (LocalTime tz today - 182 * msPerDay)\<bar> \<le> msPerDay"
      using b by blast
    have l2: "\<bar>LocalTZA_local tz (LocalTime tz today + 182 * msPerDay)\<bar> \<le> msPerDay"
      using b by blast
    have s: "fullYearStartDate tz today
        = today + LocalTZA_UTC tz today - 182 * msPerDay
          - LocalTZA_local tz (LocalTime tz today - 182 * msPerDay)"
      unfolding fullYearStartDate_eq UTC_def by (simp add: LocalTime_def)
    have e: "fullYearEndDate tz today
        = today + LocalTZA_UTC tz today + 182 * msPerDay
          - LocalTZA_local tz (LocalTime tz today + 182 * msPerDay)"
      unfolding fullYearEndDate_eq UTC_def by (simp add: LocalTime_def)
    show ?thesis unfolding s e using u l1 l2 by linarith
  qed
  show ?thesis
    using in_activityArcs_activity [of a tz today layers activities scopeFilters]
      fullYearStartDate_eq [of tz today] fullYearEndDate_eq [of tz today] const bounded
    by blast
qed

theorem window_inclusion_witness:
  "(\<forall>t. LocalTZA_UTC zone_UTC t = 0 \<and> LocalTZA_local zone_UTC t = 0)
   \<and> (\<forall>t. \<bar>LocalTZA_UTC zone_Oslo t\<bar> \<le> msPerDay \<and> \<bar>LocalTZA_local zone_Oslo t\<bar> \<le> msPerDay)
   \<and> fullYearStartDate zone_UTC today_2025_06_15 = midnightUTC 2024 11 15
   \<and> fullYearStartDate zone_Oslo today_2025_06_15 = midnightUTC 2024 11 15 + 3600000
   \<and> fullYearStartDate zone_Oslo today_2025_06_15 \<le> today_2025_06_15 - 180 * msPerDay
   \<and> activity_early \<notin> activity ` set
       (activityArcs zone_UTC today_2025_06_15 [layer_L1] [activity_early] filters_L1)"
proof -
  have z: "\<forall>t. LocalTZA_UTC zone_UTC t = 0 \<and> LocalTZA_local zone_UTC t = 0"
    by (simp add: zone_UTC_def)
  have o: "\<forall>t. \<bar>LocalTZA_UTC zone_Oslo t\<bar> \<le> msPerDay \<and> \<bar>LocalTZA_local zone_Oslo t\<bar> \<le> msPerDay"
    by (simp add: zone_Oslo_def msPerDay_def)
  have oslo: "UTC zone_Oslo (LocalTime zone_Oslo today_2025_06_15 - 182 * msPerDay)
      = midnightUTC 2024 11 15 + 3600000"
    using window_Oslo_2025_06_15(1) by (simp only: fullYearStartDate_eq)
  have early: "endDate activity_early < today_2025_06_15 - 182 * msPerDay"
    by (simp add: activity_early_def today_2025_06_15_eq msPerDay_def midnightUTC_examples)
  have d: "today_2025_06_15 - 182 * msPerDay = midnightUTC 2024 11 15"
    by (simp add: today_2025_06_15_eq msPerDay_def midnightUTC_examples)
  from window_inclusion [of zone_UTC today_2025_06_15 activity_early "[layer_L1]"
      "[activity_early]" filters_L1 0]
    window_inclusion [of zone_Oslo today_2025_06_15 activity_early "[layer_L1]"
      "[activity_early]" filters_L1 0]
    z o oslo early d
  show ?thesis by simp
qed

text \<open>
  With today = 2025-06-15 the window starts on 2024-12-15, so an activity from 2024-12-20
  to 2024-12-22 is not excluded.
\<close>

theorem december_included:
  "activity_december \<in> activity ` set
     (activityArcs zone_UTC today_2025_06_15 [layer_L1] [activity_december] filters_L1)
   \<and> activity_december \<in> activity ` set
     (activityArcs zone_Oslo today_2025_06_15 [layer_L1] [activity_december] filters_L1)"
  unfolding in_activityArcs_activity window_UTC_2025_06_15 window_Oslo_2025_06_15
  by (simp add: activity_december_def filters_L1_def midnightUTC_examples)

section \<open>Zero layers\<close>

text \<open>
  C7 at an input without layers: one activity from 2024-12-20 to 2024-12-22 that passes
  the scope filter, with today = 2025-06-15. The claim asks for an empty list of arcs
  and a band thickness computed with the layer count clamped to 1.
  \<open>scopeRingBackgrounds\<close> clamps the count (\<open>layers.length || 1\<close>);
  \<open>activityArcs\<close> divides by \<open>SCOPE_RINGS = layers.length = 0\<close>. The list of arcs
  holds the arc of the activity, the band thickness is \<open>Infinity\<close>, and both radii of
  the arc are \<open>NaN\<close> (\<open>0 * Infinity\<close>).
\<close>

theorem zero_layers_arcs_not_empty:
  "map activity (activityArcs zone_UTC today_2025_06_15 [] [activity_december] filters_L1)
     = [activity_december]
   \<and> divide_double (Finite (ACTIVITY_AREA_OUTER - INNER_RADIUS - 10))
        (Finite (real (SCOPE_RINGS []))) = PosInfinity
   \<and> map (\<lambda>arc. (innerR (path arc), outerR (path arc)))
        (activityArcs zone_UTC today_2025_06_15 [] [activity_december] filters_L1)
       = [(NaN, NaN)]
   \<and> scopeRingBackgrounds [] = []"
proof -
  let ?arcs = "activityArcs zone_UTC today_2025_06_15 [] [activity_december] filters_L1"
  have f: "filters_L1 (scope activity_december) = Some True"
    by (simp add: filters_L1_def activity_december_def)
  have w: "\<not> (endDate activity_december < fullYearStartDate zone_UTC today_2025_06_15
              \<or> startDate activity_december > fullYearEndDate zone_UTC today_2025_06_15)"
    by (simp add: window_UTC_2025_06_15 activity_december_def midnightUTC_examples)
  from activityArcs_single [of filters_L1 activity_december zone_UTC today_2025_06_15 "[]", OF f w]
  obtain arc where arcs: "?arcs = [arc]"
    and arc: "activityArc zone_UTC today_2025_06_15 []
                (activityLayers [] [activity_december] filters_L1) activity_december = Some arc"
    by blast
  have li: "layerInfoOf (activityLayers [] [activity_december] filters_L1) activity_december
      = \<lparr>scopeRing = 0, subLayer = 0\<rparr>"
    by (simp add: layerInfoOf_def activityLayers_def activityLayersOf_def
        layersToScopeConfigs_def sort_array_def)
  have thickness: "divide_double (Finite 175) (Finite 0) = PosInfinity"
    by (simp add: divide_double_def)
  have inner: "innerR (path arc) = NaN"
    unfolding activityArc_radii(2) [OF arc] li
    by (simp add: thickness times_double_def plus_double_def divide_double_def)
  have outer: "outerR (path arc) = NaN"
    unfolding activityArc_radii(3) [OF arc] inner
    by (simp add: thickness plus_double_def minus_double_def minus_number_def divide_double_def)
  have bg: "scopeRingBackgrounds [] = []"
    by (simp add: scopeRingBackgrounds_def sort_array_def Let_def)
  show ?thesis
    using activityArc_activity [OF arc]
    by (simp add: arcs inner outer bg SCOPE_RINGS_def totalRingSpace_eq thickness)
qed

section \<open>Activities without a visible layer\<close>

text \<open>
  C10. Activity ids are unique. An activity that passes the scope filter and whose
  scope is not the id of a visible layer (the layer is hidden or absent) is in the list
  of no scope, so the sub-lane scan never sees it, and it has no entry in the layer
  map; if it meets the window like any other activity, it has an arc, with band index 0
  and sub-lane 0.
\<close>

theorem hidden_layer_default:
  assumes "a \<in> set activities"
    and "scopeFilters (scope a) = Some True"
    and "scope a \<notin> id_l ` {l \<in> set layers. isVisible l}"
    and "distinct (map id_a activities)"
  shows "activityLayers layers activities scopeFilters (id_a a) = None
       \<and> (\<forall>sc \<in> set (layersToScopeConfigs layers).
             a \<notin> set (filter (\<lambda>x. scope x = id_s sc)
                          (sortedActivities layers activities scopeFilters)))
       \<and> (\<not> (endDate a < fullYearStartDate tz today \<or> startDate a > fullYearEndDate tz today) \<longrightarrow>
            (\<exists>arc \<in> set (activityArcs tz today layers activities scopeFilters).
               activity arc = a \<and> scopeRing_arc arc = 0 \<and> subLayer_arc arc = 0))"
proof -
  let ?sorted = "sortedActivities layers activities scopeFilters"
  let ?m = "activityLayersOf (layersToScopeConfigs layers) ?sorted"
  have inj: "inj_on id_a (set activities)"
    using assms(4) by (simp add: distinct_map)
  have none: "?m (id_a a) = None"
  proof (rule ccontr)
    assume "?m (id_a a) \<noteq> None"
    then have "id_a a \<in> dom ?m" by auto
    then obtain b where b: "b \<in> set ?sorted" "id_a b = id_a a"
      "scope b \<in> id_s ` set (layersToScopeConfigs layers)"
      unfolding dom_activityLayersOf by auto
    from b(1) have "b \<in> set activities" by (simp add: set_sortedActivities)
    with inj b(2) assms(1) have "b = a" by (auto dest: inj_onD)
    with b(3) assms(3) show False by (simp add: id_s_layersToScopeConfigs)
  qed
  have srt: "a \<in> set ?sorted" using assms(1,2) by (simp add: set_sortedActivities)
  have arc: "\<exists>arc \<in> set (activityArcs tz today layers activities scopeFilters).
               activity arc = a \<and> scopeRing_arc arc = 0 \<and> subLayer_arc arc = 0"
    if w: "\<not> (endDate a < fullYearStartDate tz today \<or> startDate a > fullYearEndDate tz today)"
  proof -
    from w activityArc_Some_iff [of tz today layers ?m a]
    obtain arc where s: "activityArc tz today layers ?m a = Some arc" by blast
    have "arc \<in> set (activityArcs tz today layers activities scopeFilters)"
      unfolding activityArcs_def in_activityArcsOf using srt s by blast
    with activityArc_activity [OF s] activityArc_default [OF none s] show ?thesis by blast
  qed
  have skip: "a \<notin> set (filter (\<lambda>x. scope x = id_s sc) ?sorted)"
    if "sc \<in> set (layersToScopeConfigs layers)" for sc
  proof
    assume "a \<in> set (filter (\<lambda>x. scope x = id_s sc) ?sorted)"
    then have "scope a = id_s sc" by simp
    with that have "scope a \<in> id_s ` set (layersToScopeConfigs layers)" by auto
    with assms(3) show False by (simp add: id_s_layersToScopeConfigs)
  qed
  show ?thesis using none skip arc by (simp add: activityLayers_def)
qed

theorem hidden_layer_default_witness:
  "activityLayers [layer_hidden] [activity_december] filters_L1 (id_a activity_december) = None
   \<and> (\<exists>arc \<in> set (activityArcs zone_UTC today_2025_06_15 [layer_hidden] [activity_december]
                      filters_L1).
         activity arc = activity_december \<and> scopeRing_arc arc = 0 \<and> subLayer_arc arc = 0)"
proof -
  have w: "\<not> (endDate activity_december < fullYearStartDate zone_UTC today_2025_06_15
              \<or> startDate activity_december > fullYearEndDate zone_UTC today_2025_06_15)"
    by (simp add: window_UTC_2025_06_15 activity_december_def midnightUTC_examples)
  have h1: "activity_december \<in> set [activity_december]" by simp
  have h2: "filters_L1 (scope activity_december) = Some True"
    by (simp add: activity_december_def filters_L1_def)
  have h3: "scope activity_december \<notin> id_l ` {l \<in> set [layer_hidden]. isVisible l}"
    by (auto simp: layer_hidden_def)
  have h4: "distinct (map id_a [activity_december])" by simp
  from hidden_layer_default [of activity_december "[activity_december]" filters_L1
      "[layer_hidden]" zone_UTC today_2025_06_15, OF h1 h2 h3 h4] w
  show ?thesis by blast
qed

section \<open>Ring indices with a gap\<close>

text \<open>
  C3 at a two-layer input with ring indices 0 and 2. The scope configurations are in
  the order LA, LB, so the layer LB has position 1; the arc of its activity gets band
  index 2, the ring index, and starts at radius 245, the outer edge of the activity
  area, ending at 272.17 inside the week ring and the day ticks. The ring background of
  LB, which uses the position, spans 157.5 to 244.
\<close>

theorem ring_index_gap:
  "map id_s (layersToScopeConfigs [layer_A, layer_B]) = [''LA'', ''LB'']
   \<and> map (\<lambda>arc. (scopeRing_arc arc, innerR (path arc), outerR (path arc)))
        (activityArcs zone_UTC today_2025_06_15 [layer_A, layer_B] [activity_B] filters_AB)
       = [(2, Finite 245, Finite (4788006635088555 / 17592186044416))]
   \<and> ACTIVITY_AREA_OUTER = 245
   \<and> map (\<lambda>r. (id_r r, innerRadius r, outerRadius r))
        (scopeRingBackgrounds [layer_A, layer_B])
       = [(''LA'', 70, 313 / 2), (''LB'', 315 / 2, 244)]"
proof -
  let ?arcs = "activityArcs zone_UTC today_2025_06_15 [layer_A, layer_B] [activity_B] filters_AB"
  have f: "filters_AB (scope activity_B) = Some True"
    by (simp add: filters_AB_def activity_B_def)
  have w: "\<not> (endDate activity_B < fullYearStartDate zone_UTC today_2025_06_15
              \<or> startDate activity_B > fullYearEndDate zone_UTC today_2025_06_15)"
    by (simp add: window_UTC_2025_06_15 activity_B_def midnightUTC_examples)
  from activityArcs_single [of filters_AB activity_B zone_UTC today_2025_06_15 "[layer_A, layer_B]", OF f w]
  obtain arc where arcs: "?arcs = [arc]"
    and arc: "activityArc zone_UTC today_2025_06_15 [layer_A, layer_B]
                (activityLayers [layer_A, layer_B] [activity_B] filters_AB) activity_B
              = Some arc"
    by blast
  have li: "layerInfoOf (activityLayers [layer_A, layer_B] [activity_B] filters_AB) activity_B
      = \<lparr>scopeRing = 2, subLayer = 0\<rparr>"
    by code_simp
  have ring: "scopeRing_arc arc = 2"
    unfolding activityArc_radii(1) [OF arc] li by simp
  have inner: "innerR (path arc) = Finite 245"
    unfolding activityArc_radii(2) [OF arc] li by (simp add: double_eval)
  have outer: "outerR (path arc) = Finite (4788006635088555 / 17592186044416)"
    unfolding activityArc_radii(3) [OF arc] inner by (simp add: double_eval)
  have cfg: "map id_s (layersToScopeConfigs [layer_A, layer_B]) = [''LA'', ''LB'']"
    by code_simp
  have area: "ACTIVITY_AREA_OUTER = 245"
    by (simp add: ACTIVITY_AREA_OUTER_def WEEK_RING_INNER_def WEEK_RING_OUTER_def
        DAY_TICK_INNER_def OUTER_RADIUS_def)
  have bg: "map (\<lambda>r. (id_r r, innerRadius r, outerRadius r))
        (scopeRingBackgrounds [layer_A, layer_B])
       = [(''LA'', 70, 313 / 2), (''LB'', 315 / 2, 244)]"
    by code_simp
  show ?thesis using cfg area bg by (simp add: arcs ring inner outer)
qed

section \<open>Sub-lane allocation\<close>



section \<open>Processing order\<close>



section \<open>Week numbers\<close>

text \<open>
  C8 at the date 0050-01-02 on a host in UTC. The date is valid, its local fields are
  year 50, month 0 and date 2, and it is a Sunday, in ISO week 52 (of the year 49).
  \<open>getWeekNumber\<close>, documented as the ISO week, rebuilds the date with
  \<open>Date.UTC(50, 0, 2)\<close>, which is 1950-01-02, and returns 1, the week of that Monday.
\<close>

theorem two_digit_year_week:
  "validDate date_0050_01_02
   \<and> getFullYear zone_UTC date_0050_01_02 = 50 \<and> getMonth zone_UTC date_0050_01_02 = 0
   \<and> getDate zone_UTC date_0050_01_02 = 2 \<and> getDay zone_UTC date_0050_01_02 = 0
   \<and> Date_UTC 50 0 2 = Some (midnightUTC 1950 0 2)
   \<and> isoWeekNumber (Day date_0050_01_02) = 52
   \<and> getWeekNumber zone_UTC date_0050_01_02 = Some 1"
  by code_simp

end
